theory Spec2Isabelle
  imports Main
begin

section \<open>Review Gate V2: the file-based signalling protocol\<close>

text \<open>
  A shallow embedding of the polling handshake of \<^verbatim>\<open>src/V2/review_gate_v2_mcp.py\<close>:
  the response waiter \<^verbatim>\<open>_wait_for_user_input\<close>, the acknowledgement waiter
  \<^verbatim>\<open>_wait_for_extension_acknowledgement\<close>, the emitter
  \<^verbatim>\<open>_trigger_cursor_popup_immediately\<close> with \<^verbatim>\<open>_create_backup_triggers\<close>, the speech
  request handler \<^verbatim>\<open>_process_speech_request\<close> with \<^verbatim>\<open>_write_speech_response\<close>, and the
  dispatcher \<^verbatim>\<open>call_tool\<close>.

  Conventions. Strings are byte strings. Time is counted in whole milliseconds, so the
  source's \<^verbatim>\<open>time.time() - start_time < timeout\<close> (seconds) reads
  \<open>clock s - start < timeout * 1000\<close>. Logging has no effect that the program reads back
  and is left out. Library calls whose result the program cannot compute by itself
  (\<^verbatim>\<open>json.loads\<close>, \<^verbatim>\<open>json.dumps\<close>, \<^verbatim>\<open>str\<close> of a value that is not a string, the
  temporary directory) are parameters, collected in the record \<open>pylib\<close>.
\<close>

subsection \<open>JSON values as Python sees them\<close>

datatype json =
    JNull
  | JBool bool
  | JNum int
  | JStr string
  | JArr "json list"
  | JObj "(string \<times> json) list"

text \<open>Python truthiness, as used by \<^verbatim>\<open>if x:\<close> and \<^verbatim>\<open>x and y\<close>.\<close>

fun truthy :: "json \<Rightarrow> bool" where
  "truthy JNull = False"
| "truthy (JBool b) = b"
| "truthy (JNum n) = (n \<noteq> 0)"
| "truthy (JStr s) = (s \<noteq> [])"
| "truthy (JArr xs) = (xs \<noteq> [])"
| "truthy (JObj kvs) = (kvs \<noteq> [])"

fun py_type_name :: "json \<Rightarrow> string" where
  "py_type_name JNull = ''NoneType''"
| "py_type_name (JBool b) = ''bool''"
| "py_type_name (JNum n) = ''int''"
| "py_type_name (JStr s) = ''str''"
| "py_type_name (JArr xs) = ''list''"
| "py_type_name (JObj kvs) = ''dict''"

subsection \<open>Exceptions\<close>

datatype exn_kind =
    FileNotFoundError
  | OSError
  | JSONDecodeError
  | AttributeError
  | TypeError
  | ValueError
  | RuntimeError

text \<open>An exception is its class and the text \<^verbatim>\<open>str(e)\<close> gives.\<close>

datatype exn = Exn exn_kind string

fun exn_str :: "exn \<Rightarrow> string" where
  "exn_str (Exn k m) = m"

definition no_attribute :: "json \<Rightarrow> string \<Rightarrow> exn" where
  "no_attribute v a =
     Exn AttributeError
       ([CHR 0x27] @ py_type_name v @ [CHR 0x27] @ '' object has no attribute '' @
        [CHR 0x27] @ a @ [CHR 0x27])"

definition not_iterable :: "json \<Rightarrow> exn" where
  "not_iterable v =
     Exn TypeError ([CHR 0x27] @ py_type_name v @ [CHR 0x27] @ '' object is not iterable'')"

subsection \<open>Library parameters\<close>

record pylib =
  loads :: "string \<Rightarrow> string + json"
  dumps :: "json \<Rightarrow> string"
  repr :: "json \<Rightarrow> string"
  temp_dir :: string
  isoformat :: "int \<Rightarrow> string"
  pid :: int
  exists_other :: "json \<Rightarrow> string + bool"

text \<open>
  \<open>loads L s\<close> is \<^verbatim>\<open>json.loads(s)\<close>: \<open>Inr\<close> the value, or \<open>Inl\<close> the message of the
  \<^verbatim>\<open>JSONDecodeError\<close>. An object is an association list read with \<open>map_of\<close>.
  \<open>dumps L v\<close> is \<^verbatim>\<open>json.dumps(v, indent=2)\<close>. \<open>repr L v\<close> is \<^verbatim>\<open>str(v)\<close> for a list or
  a dict. \<open>temp_dir L\<close> is \<^verbatim>\<open>tempfile.gettempdir()\<close>, \<open>isoformat L t\<close> is
  \<^verbatim>\<open>datetime.now().isoformat()\<close> at clock reading \<open>t\<close>, \<open>pid L\<close> is \<^verbatim>\<open>os.getpid()\<close>, and
  \<open>exists_other L v\<close> is \<^verbatim>\<open>os.path.exists(v)\<close> for a \<open>v\<close> that is not a string: the answer
  for a file descriptor, or the message of the \<^verbatim>\<open>TypeError\<close>.
\<close>

definition json_loads :: "pylib \<Rightarrow> string \<Rightarrow> exn + json" where
  "json_loads L s = (case loads L s of Inl m \<Rightarrow> Inl (Exn JSONDecodeError m) | Inr v \<Rightarrow> Inr v)"

subsection \<open>Strings\<close>

definition is_space :: "char \<Rightarrow> bool" where
  "is_space c = (let n = (of_char c :: nat) in (9 \<le> n \<and> n \<le> 13) \<or> (28 \<le> n \<and> n \<le> 32))"

definition strip :: "string \<Rightarrow> string" where
  "strip s = rev (dropWhile is_space (rev (dropWhile is_space s)))"

definition startswith :: "string \<Rightarrow> string \<Rightarrow> bool" where
  "startswith s p = (take (length p) s = p)"

definition endswith :: "string \<Rightarrow> string \<Rightarrow> bool" where
  "endswith s p = (length p \<le> length s \<and> drop (length s - length p) s = p)"

fun join :: "string \<Rightarrow> string list \<Rightarrow> string" where
  "join sep [] = []"
| "join sep [x] = x"
| "join sep (x # y # ys) = x @ sep @ join sep (y # ys)"

definition digit_char :: "nat \<Rightarrow> char" where
  "digit_char n = char_of (48 + n)"

function decimal :: "nat \<Rightarrow> string" where
  "decimal n = (if n < 10 then [digit_char n] else decimal (n div 10) @ [digit_char (n mod 10)])"
  by pat_completeness auto
termination
  by (relation "measure (\<lambda>n. n)") auto

declare decimal.simps [simp del]

text \<open>\<^verbatim>\<open>str(i)\<close> for an integer.\<close>

definition py_int_str :: "int \<Rightarrow> string" where
  "py_int_str i = (if i < 0 then ''-'' @ decimal (nat (- i)) else decimal (nat i))"

text \<open>\<^verbatim>\<open>str(v)\<close>, as an f-string formats a value.\<close>

fun py_str :: "pylib \<Rightarrow> json \<Rightarrow> string" where
  "py_str L (JStr s) = s"
| "py_str L JNull = ''None''"
| "py_str L (JBool b) = (if b then ''True'' else ''False'')"
| "py_str L (JNum n) = py_int_str n"
| "py_str L v = repr L v"

text \<open>\<^verbatim>\<open>os.path.join(a, b)\<close> on POSIX.\<close>

definition path_join :: "string \<Rightarrow> string \<Rightarrow> string" where
  "path_join a b =
     (if startswith b ''/'' then b
      else if a = [] \<or> endswith a ''/'' then a @ b
      else a @ ''/'' @ b)"

definition get_temp_file_path :: "pylib \<Rightarrow> string \<Rightarrow> string" where
  "get_temp_file_path L filename = path_join (temp_dir L) filename"

definition get_log_file :: "pylib \<Rightarrow> string" where
  "get_log_file L = path_join (temp_dir L) ''review_gate_v2.log''"

subsection \<open>Dictionary access\<close>

text \<open>\<^verbatim>\<open>d.get(k, default)\<close>; on a value that is not a dict it raises \<^verbatim>\<open>AttributeError\<close>.\<close>

definition dict_get :: "json \<Rightarrow> string \<Rightarrow> json \<Rightarrow> exn + json" where
  "dict_get d k dflt =
     (case d of
        JObj kvs \<Rightarrow> (case map_of kvs k of Some v \<Rightarrow> Inr v | None \<Rightarrow> Inr dflt)
      | _ \<Rightarrow> Inl (no_attribute d ''get''))"

text \<open>\<^verbatim>\<open>v.strip()\<close> and \<^verbatim>\<open>v.startswith(p)\<close> exist on strings only.\<close>

definition str_strip :: "json \<Rightarrow> exn + string" where
  "str_strip v = (case v of JStr s \<Rightarrow> Inr (strip s) | _ \<Rightarrow> Inl (no_attribute v ''strip''))"

definition str_startswith :: "json \<Rightarrow> string \<Rightarrow> exn + bool" where
  "str_startswith v p =
     (case v of JStr s \<Rightarrow> Inr (startswith s p) | _ \<Rightarrow> Inl (no_attribute v ''startswith''))"

definition bind_exn :: "exn + 'a \<Rightarrow> ('a \<Rightarrow> exn + 'b) \<Rightarrow> exn + 'b" where
  "bind_exn m f = (case m of Inl e \<Rightarrow> Inl e | Inr x \<Rightarrow> f x)"

subsection \<open>The shared signal store, the clock and the host\<close>

text \<open>
  The program shares a directory with the host extension, which runs on its own. A
  \<open>turn\<close> is what the surroundings do while the program performs one primitive operation
  (a file operation, a sync or a sleep): the host's writes and deletions that land just
  before the operation, whether the operation, if it writes to the disk, fails with an
  \<^verbatim>\<open>OSError\<close> (and with which text), and the extra time taken. Testing, reading and
  deleting a file fail only when the file is missing. The \<open>script\<close> lists the turns to
  come; when it is used up the surroundings are quiet. A write either stores the whole
  content or fails and leaves the store as it was.
\<close>

record turn =
  host_puts :: "(string \<times> string option) list"
  fault :: "string option"
  lag :: nat

record world =
  files :: "string \<Rightarrow> string option"
  clock :: int
  script :: "turn list"

text \<open>
  The fields of \<^verbatim>\<open>ReviewGateServer\<close> that the modelled methods read or write. The
  transcription model, when loaded, maps the audio file to the texts of its segments or
  to the exception raised on the way.
\<close>

record server = world +
  last_attachments :: json
  whisper_model :: "(json \<Rightarrow> exn + string list) option"

fun apply_puts :: "(string \<times> string option) list \<Rightarrow> (string \<Rightarrow> string option) \<Rightarrow> (string \<Rightarrow> string option)" where
  "apply_puts [] f = f"
| "apply_puts ((p, v) # ps) f = apply_puts ps (f(p := v))"

definition advance :: "'a world_scheme \<Rightarrow> string option \<times> 'a world_scheme" where
  "advance s =
     (case script s of
        [] \<Rightarrow> (None, s)
      | t # ts \<Rightarrow>
          (fault t,
           s\<lparr>files := apply_puts (host_puts t) (files s),
             clock := clock s + int (lag t),
             script := ts\<rparr>))"

definition file_not_found :: "string \<Rightarrow> exn" where
  "file_not_found p =
     Exn FileNotFoundError (''[Errno 2] No such file or directory: '' @ [CHR 0x27] @ p @ [CHR 0x27])"

text \<open>\<^verbatim>\<open>Path.exists()\<close> and \<^verbatim>\<open>os.path.exists\<close> on a string: never raise.\<close>

definition path_exists :: "string \<Rightarrow> 'a world_scheme \<Rightarrow> bool \<times> 'a world_scheme" where
  "path_exists p s = (case advance s of (f, s') \<Rightarrow> (files s' p \<noteq> None, s'))"

text \<open>\<^verbatim>\<open>Path.read_text()\<close>.\<close>

definition read_text :: "string \<Rightarrow> 'a world_scheme \<Rightarrow> (exn + string) \<times> 'a world_scheme" where
  "read_text p s =
     (case advance s of (f, s') \<Rightarrow>
        (case files s' p of
           None \<Rightarrow> (Inl (file_not_found p), s')
         | Some c \<Rightarrow> (Inr c, s')))"

text \<open>\<^verbatim>\<open>Path.write_text(c)\<close>, and \<^verbatim>\<open>open(p, "w")\<close> followed by \<^verbatim>\<open>json.dump\<close>.\<close>

definition write_text :: "string \<Rightarrow> string \<Rightarrow> 'a world_scheme \<Rightarrow> (exn + unit) \<times> 'a world_scheme" where
  "write_text p c s =
     (case advance s of (f, s') \<Rightarrow>
        (case f of
           Some m \<Rightarrow> (Inl (Exn OSError m), s')
         | None \<Rightarrow> (Inr (), s'\<lparr>files := (files s')(p \<mapsto> c)\<rparr>)))"

text \<open>\<^verbatim>\<open>Path.unlink()\<close>: a missing file raises.\<close>

definition unlink :: "string \<Rightarrow> 'a world_scheme \<Rightarrow> (exn + unit) \<times> 'a world_scheme" where
  "unlink p s =
     (case advance s of (f, s') \<Rightarrow>
        (case files s' p of
           None \<Rightarrow> (Inl (file_not_found p), s')
         | Some c \<Rightarrow> (Inr (), s'\<lparr>files := (files s')(p := None)\<rparr>)))"

text \<open>\<^verbatim>\<open>Path.stat().st_size\<close>: a missing file raises \<^verbatim>\<open>FileNotFoundError\<close>.\<close>

definition stat_size :: "string \<Rightarrow> 'a world_scheme \<Rightarrow> (exn + nat) \<times> 'a world_scheme" where
  "stat_size p s =
     (case advance s of (f, s') \<Rightarrow>
        (case files s' p of
           None \<Rightarrow> (Inl (file_not_found p), s')
         | Some c \<Rightarrow> (Inr (length c), s')))"

text \<open>\<^verbatim>\<open>os.sync()\<close>.\<close>

definition os_sync :: "'a world_scheme \<Rightarrow> (exn + unit) \<times> 'a world_scheme" where
  "os_sync s =
     (case advance s of (f, s') \<Rightarrow>
        (case f of Some m \<Rightarrow> (Inl (Exn OSError m), s') | None \<Rightarrow> (Inr (), s')))"

text \<open>\<^verbatim>\<open>asyncio.sleep(d)\<close> and \<^verbatim>\<open>time.sleep(d)\<close>, \<open>d\<close> in milliseconds.\<close>

definition sleep :: "nat \<Rightarrow> 'a world_scheme \<Rightarrow> 'a world_scheme" where
  "sleep d s = (case advance s of (f, s') \<Rightarrow> s'\<lparr>clock := clock s' + int d\<rparr>)"

lemma clock_advance: "clock s \<le> clock (snd (advance s))"
  by (simp add: advance_def split: list.splits)

lemma clock_path_exists: "clock s \<le> clock (snd (path_exists p s))"
  using clock_advance [of s] by (auto simp: path_exists_def split: prod.splits)

lemma clock_read_text: "clock s \<le> clock (snd (read_text p s))"
  using clock_advance [of s]
  by (auto simp: read_text_def split: prod.splits option.splits)

lemma clock_unlink: "clock s \<le> clock (snd (unlink p s))"
  using clock_advance [of s]
  by (auto simp: unlink_def split: prod.splits option.splits)

lemma clock_sleep: "clock s + int d \<le> clock (sleep d s)"
  using clock_advance [of s] by (auto simp: sleep_def split: prod.splits)

subsection \<open>The response waiter\<close>

datatype verdict = Mismatch | Accepted string

datatype 'a flow = Return 'a | Next

definition response_patterns :: "pylib \<Rightarrow> string \<Rightarrow> string list" where
  "response_patterns L trigger_id =
     [path_join (temp_dir L) (''review_gate_response_'' @ trigger_id @ ''.json''),
      path_join (temp_dir L) ''review_gate_response.json'',
      path_join (temp_dir L) (''mcp_response_'' @ trigger_id @ ''.json''),
      path_join (temp_dir L) ''mcp_response.json'']"

text \<open>
  \<^verbatim>\<open>data.get("user_input", data.get("response", data.get("message", ""))).strip()\<close>:
  Python evaluates the innermost default first.
\<close>

definition extract_user_input :: "json \<Rightarrow> exn + string" where
  "extract_user_input data =
     bind_exn (dict_get data ''message'' (JStr '''')) (\<lambda>d1.
     bind_exn (dict_get data ''response'' d1) (\<lambda>d2.
     bind_exn (dict_get data ''user_input'' d2) (\<lambda>v.
     str_strip v)))"

text \<open>The loop over the attachments that collects the descriptions of the images.\<close>

fun attachment_descriptions :: "pylib \<Rightarrow> json list \<Rightarrow> exn + string list" where
  "attachment_descriptions L [] = Inr []"
| "attachment_descriptions L (att # atts) =
     bind_exn (dict_get att ''mimeType'' (JStr '''')) (\<lambda>mt.
     bind_exn (str_startswith mt ''image/'') (\<lambda>is_image.
     bind_exn (if is_image
               then bind_exn (dict_get att ''fileName'' (JStr ''unknown'')) (\<lambda>fn.
                      Inr [''Image: '' @ py_str L fn])
               else Inr []) (\<lambda>desc.
     bind_exn (attachment_descriptions L atts) (\<lambda>rest.
     Inr (desc @ rest)))))"

text \<open>
  \<^verbatim>\<open>for att in attachments\<close> on a truthy value: a list gives its elements; a string gives
  its characters and a dict its keys, which are strings and have no \<^verbatim>\<open>get\<close>; a number or
  \<^verbatim>\<open>True\<close> cannot be iterated.
\<close>

definition iterate_attachments :: "pylib \<Rightarrow> json \<Rightarrow> exn + string list" where
  "iterate_attachments L a =
     (case a of
        JArr xs \<Rightarrow> attachment_descriptions L xs
      | JStr s \<Rightarrow> Inl (no_attribute (JStr s) ''get'')
      | JObj kvs \<Rightarrow> Inl (no_attribute (JStr []) ''get'')
      | _ \<Rightarrow> Inl (not_iterable a))"

text \<open>
  The body of the inner \<^verbatim>\<open>try\<close> from the test of the first character down to the
  clean-up: the verdict on the stripped content, or the exception, together with the
  assignment made to \<^verbatim>\<open>self._last_attachments\<close> on the way, if any (it is assigned before
  the loop over the attachments can raise).
\<close>

definition parse_response :: "pylib \<Rightarrow> string \<Rightarrow> string \<Rightarrow> (exn + verdict) \<times> json option" where
  "parse_response L trigger_id file_content =
     (if startswith file_content ''{'' then
        (case json_loads L file_content of
           Inl e \<Rightarrow> (Inl e, None)
         | Inr data \<Rightarrow>
           (case extract_user_input data of
              Inl e \<Rightarrow> (Inl e, None)
            | Inr user_input \<Rightarrow>
              (case dict_get data ''attachments'' (JArr []) of
                 Inl e \<Rightarrow> (Inl e, None)
               | Inr attachments \<Rightarrow>
                 (case dict_get data ''trigger_id'' (JStr '''') of
                    Inl e \<Rightarrow> (Inl e, None)
                  | Inr response_trigger_id \<Rightarrow>
                      if truthy response_trigger_id \<and> response_trigger_id \<noteq> JStr trigger_id
                      then (Inr Mismatch, None)
                      else if truthy attachments then
                        (case iterate_attachments L attachments of
                           Inl e \<Rightarrow> (Inl e, Some attachments)
                         | Inr descs \<Rightarrow>
                             (Inr (Accepted
                                (if descs \<noteq> []
                                 then user_input @ [CHR 0x0A, CHR 0x0A] @ ''Attached: '' @
                                      join '', '' descs
                                 else user_input)),
                              Some attachments))
                      else (Inr (Accepted user_input), Some (JArr []))))))
      else (Inr (Accepted file_content), Some (JArr [])))"

definition assign_attachments :: "json option \<Rightarrow> server \<Rightarrow> server" where
  "assign_attachments a s = (case a of None \<Rightarrow> s | Some v \<Rightarrow> s\<lparr>last_attachments := v\<rparr>)"

text \<open>
  One round of \<^verbatim>\<open>for response_file in response_patterns\<close> for one file. Every exception
  after the existence test is caught by the inner handlers, which only log; \<^verbatim>\<open>continue\<close>
  on a mismatch goes to the next file as well.
\<close>

definition check_response_file :: "pylib \<Rightarrow> string \<Rightarrow> string \<Rightarrow> server \<Rightarrow> string flow \<times> server" where
  "check_response_file L trigger_id response_file s =
     (case path_exists response_file s of (ex, s1) \<Rightarrow>
        if \<not> ex then (Next, s1)
        else
          (case read_text response_file s1 of
             (Inl e, s2) \<Rightarrow> (Next, s2)
           | (Inr raw, s2) \<Rightarrow>
               (case parse_response L trigger_id (strip raw) of
                  (Inl e, a) \<Rightarrow> (Next, assign_attachments a s2)
                | (Inr Mismatch, a) \<Rightarrow> (Next, assign_attachments a s2)
                | (Inr (Accepted user_input), a) \<Rightarrow>
                    (case unlink response_file (assign_attachments a s2) of
                       (r, s3) \<Rightarrow>
                         if user_input \<noteq> [] then (Return user_input, s3) else (Next, s3)))))"

fun scan_response_files :: "pylib \<Rightarrow> string \<Rightarrow> string list \<Rightarrow> server \<Rightarrow> string flow \<times> server" where
  "scan_response_files L trigger_id [] s = (Next, s)"
| "scan_response_files L trigger_id (p # ps) s =
     (case check_response_file L trigger_id p s of
        (Return u, s') \<Rightarrow> (Return u, s')
      | (Next, s') \<Rightarrow> scan_response_files L trigger_id ps s')"

lemma clock_assign_attachments: "clock (assign_attachments a s) = clock s"
  by (simp add: assign_attachments_def split: option.splits)

lemma clock_check_response_file:
  "clock s \<le> clock (snd (check_response_file L t p s))"
proof -
  obtain ex s1 where e: "path_exists p s = (ex, s1)" by (cases "path_exists p s")
  obtain r s2 where r: "read_text p s1 = (r, s2)" by (cases "read_text p s1")
  have c1: "clock s \<le> clock s1" using clock_path_exists [of s p] e by simp
  have c2: "clock s1 \<le> clock s2" using clock_read_text [of s1 p] r by simp
  have c3: "clock s2 \<le> clock s3" if "unlink p (assign_attachments a s2) = (u, s3)"
    for a u s3
    using clock_unlink [of "assign_attachments a s2" p] that clock_assign_attachments [of a s2]
    by simp
  show ?thesis
    using c1 c2
    by (auto simp: check_response_file_def e r clock_assign_attachments
        split: prod.splits sum.splits verdict.splits dest!: c3)
qed

lemma clock_scan_response_files:
  "clock s \<le> clock (snd (scan_response_files L t ps s))"
proof (induction ps arbitrary: s)
  case Nil
  show ?case by simp
next
  case (Cons p ps)
  obtain fl s' where c: "check_response_file L t p s = (fl, s')"
    by (cases "check_response_file L t p s")
  have a: "clock s \<le> clock s'" using clock_check_response_file [of s L t p] c by simp
  show ?case
  proof (cases fl)
    case (Return u)
    then show ?thesis using a c by simp
  next
    case Next
    then show ?thesis using a c Cons.IH [of s'] by simp
  qed
qed

text \<open>
  The \<^verbatim>\<open>while\<close> loop of \<^verbatim>\<open>_wait_for_user_input\<close>. The existence test cannot raise in this
  model, so the outer handler (which sleeps 0.5 s) is never entered.
\<close>

function wait_loop :: "pylib \<Rightarrow> string \<Rightarrow> int \<Rightarrow> int \<Rightarrow> server \<Rightarrow> string option \<times> server" where
  "wait_loop L trigger_id timeout start_time s =
     (if clock s - start_time < timeout * 1000 then
        (case scan_response_files L trigger_id (response_patterns L trigger_id) s of
           (Return u, s') \<Rightarrow> (Some u, s')
         | (Next, s') \<Rightarrow> wait_loop L trigger_id timeout start_time (sleep 100 s'))
      else (None, s))"
  by pat_completeness auto
termination
proof (relation "measure (\<lambda>(L, t, timeout, start, s). nat (start + timeout * 1000 - clock s))",
    goal_cases)
  case 1
  show ?case by simp
next
  case (2 L t timeout start s x1 s')
  have a: "clock s \<le> clock s'"
    using clock_scan_response_files [of s L t "response_patterns L t"] 2(2) [symmetric] by simp
  have b: "clock s' + 100 \<le> clock (sleep 100 s')"
    using clock_sleep [of s' 100] by simp
  show ?case using 2(1) a b by simp
qed

declare wait_loop.simps [simp del]

definition wait_for_user_input :: "pylib \<Rightarrow> string \<Rightarrow> int \<Rightarrow> server \<Rightarrow> string option \<times> server" where
  "wait_for_user_input L trigger_id timeout s = wait_loop L trigger_id timeout (clock s) s"

subsection \<open>The acknowledgement waiter\<close>

definition ack_file :: "pylib \<Rightarrow> string \<Rightarrow> string" where
  "ack_file L trigger_id = path_join (temp_dir L) (''review_gate_ack_'' @ trigger_id @ ''.json'')"

text \<open>
  One round of the \<^verbatim>\<open>while\<close> loop of \<^verbatim>\<open>_wait_for_extension_acknowledgement\<close>, the sleep
  at its end included: 0.1 s after a regular round, 0.5 s in the handler of an exception
  (the file vanished before the read, its content is no JSON, or the JSON value has no
  \<^verbatim>\<open>get\<close>). The failure of the clean-up is ignored by the source.
\<close>

definition ack_round :: "pylib \<Rightarrow> string \<Rightarrow> server \<Rightarrow> bool flow \<times> server" where
  "ack_round L trigger_id s =
     (case path_exists (ack_file L trigger_id) s of (ex, s1) \<Rightarrow>
        if ex then
          (case read_text (ack_file L trigger_id) s1 of
             (Inl e, s2) \<Rightarrow> (Next, sleep 500 s2)
           | (Inr raw, s2) \<Rightarrow>
               (case bind_exn (json_loads L raw)
                       (\<lambda>data. dict_get data ''acknowledged'' (JBool False)) of
                  Inl e \<Rightarrow> (Next, sleep 500 s2)
                | Inr ack_status \<Rightarrow>
                    (case unlink (ack_file L trigger_id) s2 of
                       (r, s3) \<Rightarrow>
                         if truthy ack_status then (Return True, s3)
                         else (Next, sleep 100 s3))))
        else (Next, sleep 100 s1))"

lemma clock_ack_round:
  "ack_round L t s = (Next, s') \<Longrightarrow> clock s + 100 \<le> clock s'"
proof -
  assume a: "ack_round L t s = (Next, s')"
  obtain ex s1 where e: "path_exists (ack_file L t) s = (ex, s1)"
    by (cases "path_exists (ack_file L t) s")
  obtain r s2 where r: "read_text (ack_file L t) s1 = (r, s2)"
    by (cases "read_text (ack_file L t) s1")
  obtain u s3 where u: "unlink (ack_file L t) s2 = (u, s3)"
    by (cases "unlink (ack_file L t) s2")
  have c1: "clock s \<le> clock s1" using clock_path_exists [of s "ack_file L t"] e by simp
  have c2: "clock s1 \<le> clock s2" using clock_read_text [of s1 "ack_file L t"] r by simp
  have c3: "clock s2 \<le> clock s3" using clock_unlink [of s2 "ack_file L t"] u by simp
  have k1: "clock s1 + 100 \<le> clock (sleep 100 s1)" using clock_sleep [of s1 100] by simp
  have k2: "clock s2 + 500 \<le> clock (sleep 500 s2)" using clock_sleep [of s2 500] by simp
  have k3: "clock s3 + 100 \<le> clock (sleep 100 s3)" using clock_sleep [of s3 100] by simp
  show ?thesis
    using a c1 c2 c3 k1 k2 k3
    by (auto simp: ack_round_def e r u split: if_splits sum.splits)
qed

function ack_loop :: "pylib \<Rightarrow> string \<Rightarrow> int \<Rightarrow> int \<Rightarrow> server \<Rightarrow> bool \<times> server" where
  "ack_loop L trigger_id timeout start_time s =
     (if clock s - start_time < timeout * 1000 then
        (case ack_round L trigger_id s of
           (Return b, s') \<Rightarrow> (b, s')
         | (Next, s') \<Rightarrow> ack_loop L trigger_id timeout start_time s')
      else (False, s))"
  by pat_completeness auto
termination
proof (relation "measure (\<lambda>(L, t, timeout, start, s). nat (start + timeout * 1000 - clock s))",
    goal_cases)
  case 1
  show ?case by simp
next
  case (2 L t timeout start s x1 s')
  have "clock s + 100 \<le> clock s'"
    using clock_ack_round [of L t s s'] 2(2,3) by simp
  then show ?case using 2(1) by simp
qed

declare ack_loop.simps [simp del]

definition wait_for_extension_acknowledgement ::
  "pylib \<Rightarrow> string \<Rightarrow> int \<Rightarrow> server \<Rightarrow> bool \<times> server" where
  "wait_for_extension_acknowledgement L trigger_id timeout s =
     ack_loop L trigger_id timeout (clock s) s"

subsection \<open>The emitter\<close>

definition trigger_file :: "pylib \<Rightarrow> string" where
  "trigger_file L = path_join (temp_dir L) ''review_gate_trigger.json''"

definition backup_trigger :: "pylib \<Rightarrow> nat \<Rightarrow> string" where
  "backup_trigger L i =
     path_join (temp_dir L) (''review_gate_trigger_'' @ py_int_str (int i) @ ''.json'')"

definition trigger_document :: "pylib \<Rightarrow> json \<Rightarrow> int \<Rightarrow> json" where
  "trigger_document L data now =
     JObj [(''timestamp'', JStr (isoformat L now)),
           (''system'', JStr ''review-gate-v2''),
           (''editor'', JStr ''cursor''),
           (''data'', data),
           (''pid'', JNum (pid L)),
           (''active_window'', JBool True),
           (''mcp_integration'', JBool True),
           (''immediate_activation'', JBool True)]"

definition backup_document :: "pylib \<Rightarrow> json \<Rightarrow> nat \<Rightarrow> int \<Rightarrow> json" where
  "backup_document L data i now =
     JObj [(''backup_id'', JNum (int i)),
           (''timestamp'', JStr (isoformat L now)),
           (''system'', JStr ''review-gate-v2''),
           (''data'', data),
           (''mcp_integration'', JBool True),
           (''immediate_activation'', JBool True)]"

text \<open>
  \<^verbatim>\<open>for i in range(3)\<close> of \<^verbatim>\<open>_create_backup_triggers\<close>: the first write that raises ends
  the loop.
\<close>

fun write_backups :: "pylib \<Rightarrow> json \<Rightarrow> nat list \<Rightarrow> server \<Rightarrow> (exn + unit) \<times> server" where
  "write_backups L data [] s = (Inr (), s)"
| "write_backups L data (i # is) s =
     (case write_text (backup_trigger L i) (dumps L (backup_document L data i (clock s))) s of
        (Inl e, s') \<Rightarrow> (Inl e, s')
      | (Inr u, s') \<Rightarrow> write_backups L data is s')"

text \<open>The handler of \<^verbatim>\<open>_create_backup_triggers\<close> logs the exception and returns.\<close>

definition create_backup_triggers :: "pylib \<Rightarrow> json \<Rightarrow> server \<Rightarrow> server" where
  "create_backup_triggers L data s = snd (write_backups L data [0, 1, 2] s)"

text \<open>\<^verbatim>\<open>for attempt in range(3)\<close>: sync, and leave the loop at the first success.\<close>

fun sync_with_retry :: "nat \<Rightarrow> server \<Rightarrow> server" where
  "sync_with_retry 0 s = s"
| "sync_with_retry (Suc n) s =
     (case os_sync s of
        (Inr u, s') \<Rightarrow> s'
      | (Inl e, s') \<Rightarrow> sync_with_retry n (sleep 100 s'))"

text \<open>
  \<^verbatim>\<open>_trigger_cursor_popup_immediately\<close> after the size check: nothing from here on raises
  out of its own handlers, and the function returns \<^verbatim>\<open>True\<close>.
\<close>

definition finish_trigger :: "pylib \<Rightarrow> json \<Rightarrow> server \<Rightarrow> server" where
  "finish_trigger L data s4 =
     (let s5 = sync_with_retry 3 s4;
          s6 = create_backup_triggers L data s5;
          s7 = sleep 200 s6;
          s8 = snd (path_exists (trigger_file L) s7);
          s9 = snd (path_exists (get_log_file L) s8)
      in s9)"

definition trigger_cursor_popup_immediately :: "pylib \<Rightarrow> json \<Rightarrow> server \<Rightarrow> bool \<times> server" where
  "trigger_cursor_popup_immediately L data s0 =
     (let s1 = sleep 100 s0;
          content = dumps L (trigger_document L data (clock s1))
      in case write_text (trigger_file L) content s1 of
           (Inl e, s2) \<Rightarrow> (False, sleep 1000 s2)
         | (Inr u, s2) \<Rightarrow>
             (case path_exists (trigger_file L) s2 of (ex, s3) \<Rightarrow>
                if \<not> ex then (False, s3)
                else
                  (case stat_size (trigger_file L) s3 of
                     (Inr file_size, s4) \<Rightarrow>
                       if file_size = 0 then (False, s4)
                       else (True, finish_trigger L data s4)
                   | (Inl (Exn FileNotFoundError m), s4) \<Rightarrow> (True, finish_trigger L data s4)
                   | (Inl e, s4) \<Rightarrow> (False, sleep 1000 s4))))"

subsection \<open>The speech request\<close>

definition speech_response_file :: "pylib \<Rightarrow> json \<Rightarrow> string" where
  "speech_response_file L trigger_id =
     path_join (temp_dir L) (''review_gate_speech_response_'' @ py_str L trigger_id @ ''.json'')"

definition speech_response_data :: "pylib \<Rightarrow> json \<Rightarrow> string \<Rightarrow> string option \<Rightarrow> int \<Rightarrow> json" where
  "speech_response_data L trigger_id transcription error now =
     JObj [(''timestamp'', JStr (isoformat L now)),
           (''trigger_id'', trigger_id),
           (''transcription'', JStr transcription),
           (''success'', JBool (error = None)),
           (''error'', (case error of None \<Rightarrow> JNull | Some e \<Rightarrow> JStr e)),
           (''source'', JStr ''review_gate_whisper'')]"

text \<open>\<^verbatim>\<open>_write_speech_response\<close>: a failure of the write is logged and nothing else.\<close>

definition write_speech_response :: "pylib \<Rightarrow> json \<Rightarrow> string \<Rightarrow> string option \<Rightarrow> server \<Rightarrow> server" where
  "write_speech_response L trigger_id transcription error s =
     snd (write_text (speech_response_file L trigger_id)
            (dumps L (speech_response_data L trigger_id transcription error (clock s))) s)"

text \<open>\<^verbatim>\<open>os.path.exists(audio_file)\<close> on whatever the request holds.\<close>

definition os_path_exists :: "pylib \<Rightarrow> json \<Rightarrow> server \<Rightarrow> (exn + bool) \<times> server" where
  "os_path_exists L v s =
     (case v of
        JStr p \<Rightarrow> (case path_exists p s of (b, s') \<Rightarrow> (Inr b, s'))
      | _ \<Rightarrow> (case exists_other L v of
                Inl m \<Rightarrow> (Inl (Exn TypeError m), s)
              | Inr b \<Rightarrow> (Inr b, s)))"

text \<open>The body of the \<^verbatim>\<open>try\<close> of \<^verbatim>\<open>_process_speech_request\<close>.\<close>

definition speech_body :: "pylib \<Rightarrow> json \<Rightarrow> server \<Rightarrow> (exn + unit) \<times> server" where
  "speech_body L trigger_data s =
     (case bind_exn (dict_get trigger_data ''data'' (JObj []))
             (\<lambda>d. dict_get d ''audio_file'' JNull) of
        Inl e \<Rightarrow> (Inl e, s)
      | Inr audio_file \<Rightarrow>
        (case bind_exn (dict_get trigger_data ''data'' (JObj []))
                (\<lambda>d. dict_get d ''trigger_id'' JNull) of
           Inl e \<Rightarrow> (Inl e, s)
         | Inr trigger_id \<Rightarrow>
             if \<not> truthy audio_file \<or> \<not> truthy trigger_id then (Inr (), s)
             else
               (case whisper_model s of
                  None \<Rightarrow>
                    (Inr (), write_speech_response L trigger_id ''''
                               (Some ''Whisper model not available'') s)
                | Some model \<Rightarrow>
                    (case os_path_exists L audio_file s of
                       (Inl e, s1) \<Rightarrow> (Inl e, s1)
                     | (Inr found, s1) \<Rightarrow>
                         if \<not> found then
                           (Inr (), write_speech_response L trigger_id ''''
                                      (Some ''Audio file not found'') s1)
                         else
                           (case model audio_file of
                              Inl e \<Rightarrow> (Inl e, s1)
                            | Inr segments \<Rightarrow>
                                (let transcription = strip (join '' '' segments);
                                     s2 = write_speech_response L trigger_id transcription None s1;
                                     s3 = (case audio_file of
                                             JStr p \<Rightarrow> snd (unlink p s2)
                                           | _ \<Rightarrow> s2)
                                 in (Inr (), s3)))))))"

text \<open>
  \<^verbatim>\<open>_process_speech_request\<close>: the handler looks the trigger id up again, which can raise
  once more, and writes the response that carries \<^verbatim>\<open>str(e)\<close>.
\<close>

definition process_speech_request :: "pylib \<Rightarrow> json \<Rightarrow> server \<Rightarrow> (exn + unit) \<times> server" where
  "process_speech_request L trigger_data s =
     (case speech_body L trigger_data s of
        (Inr u, s') \<Rightarrow> (Inr (), s')
      | (Inl e, s') \<Rightarrow>
          (case bind_exn (dict_get trigger_data ''data'' (JObj []))
                  (\<lambda>d. dict_get d ''trigger_id'' (JStr ''unknown'')) of
             Inl e' \<Rightarrow> (Inl e', s')
           | Inr trigger_id \<Rightarrow>
               (Inr (), write_speech_response L trigger_id '''' (Some (exn_str e)) s')))"

subsection \<open>The dispatcher\<close>

datatype content = TextContent string | ImageContent string string

text \<open>
  The images of \<^verbatim>\<open>self._last_attachments\<close>, as \<^verbatim>\<open>_handle_review_gate_chat\<close> appends them:
  the test of the media type is outside the \<^verbatim>\<open>try\<close>, the construction of the image (a
  missing \<^verbatim>\<open>base64Data\<close>, or one that is not a string) inside.
\<close>

fun image_contents :: "json list \<Rightarrow> exn + content list" where
  "image_contents [] = Inr []"
| "image_contents (att # atts) =
     bind_exn (dict_get att ''mimeType'' (JStr '''')) (\<lambda>mt.
     bind_exn (str_startswith mt ''image/'') (\<lambda>is_image.
     bind_exn (image_contents atts) (\<lambda>rest.
     Inr ((if is_image then
             (case (dict_get att ''base64Data'' JNull, mt) of
                (Inr (JStr d), JStr m) \<Rightarrow> [ImageContent d m]
              | _ \<Rightarrow> [])
           else []) @ rest))))"

definition iterate_images :: "json \<Rightarrow> exn + content list" where
  "iterate_images a =
     (if \<not> truthy a then Inr []
      else (case a of
              JArr xs \<Rightarrow> image_contents xs
            | JStr s \<Rightarrow> Inl (no_attribute (JStr s) ''get'')
            | JObj kvs \<Rightarrow> Inl (no_attribute (JStr []) ''get'')
            | _ \<Rightarrow> Inl (not_iterable a)))"

definition default_title :: string where
  "default_title =
     ''Review Gate V2 - '' @
     [CHR 0xE3, CHR 0x82, CHR 0xB2, CHR 0xE3, CHR 0x83, CHR 0xBC, CHR 0xE3, CHR 0x83, CHR 0x88]"

definition timeout_message :: string where
  "timeout_message = ''TIMEOUT: No user input received for review gate within 5 minutes''"

definition handle_review_gate_chat :: "pylib \<Rightarrow> json \<Rightarrow> server \<Rightarrow> (exn + content list) \<times> server" where
  "handle_review_gate_chat L args s =
     (case bind_exn (dict_get args ''message'' (JStr ''Please provide your review:'')) (\<lambda>message.
           bind_exn (dict_get args ''title'' (JStr default_title)) (\<lambda>title.
           bind_exn (dict_get args ''context'' (JStr '''')) (\<lambda>context.
           bind_exn (dict_get args ''urgent'' (JBool False)) (\<lambda>urgent.
           Inr (message, title, context, urgent))))) of
        Inl e \<Rightarrow> (Inl e, s)
      | Inr (message, title, context, urgent) \<Rightarrow>
          (let trigger_id = ''review_'' @ py_int_str (clock s);
               data = JObj [(''tool'', JStr ''review_gate_chat''),
                            (''message'', message),
                            (''title'', title),
                            (''context'', context),
                            (''urgent'', urgent),
                            (''trigger_id'', JStr trigger_id),
                            (''timestamp'', JStr (isoformat L (clock s))),
                            (''immediate_activation'', JBool True)]
           in case trigger_cursor_popup_immediately L data s of
                (False, s1) \<Rightarrow>
                  (Inr [TextContent ''ERROR: Failed to trigger Review Gate popup''], s1)
              | (True, s1) \<Rightarrow>
                  (case wait_for_extension_acknowledgement L trigger_id 30 s1 of
                     (ack_received, s2) \<Rightarrow>
                       (case wait_for_user_input L trigger_id 300 s2 of
                          (None, s3) \<Rightarrow> (Inr [TextContent timeout_message], s3)
                        | (Some user_input, s3) \<Rightarrow>
                            if user_input = [] then (Inr [TextContent timeout_message], s3)
                            else
                              (case iterate_images (last_attachments s3) of
                                 Inl e \<Rightarrow> (Inl e, s3)
                               | Inr images \<Rightarrow>
                                   (Inr (TextContent (''User Response: '' @ user_input) # images),
                                    s3))))))"

text \<open>
  \<^verbatim>\<open>call_tool\<close>: half a second of delay, then the one known tool or the
  \<^verbatim>\<open>ValueError\<close>; the handler of every exception sleeps a second and answers with a text.
\<close>

definition call_tool :: "pylib \<Rightarrow> string \<Rightarrow> json \<Rightarrow> server \<Rightarrow> content list \<times> server" where
  "call_tool L name arguments s =
     (let s1 = sleep 500 s
      in case (if name = ''review_gate_chat'' then handle_review_gate_chat L arguments s1
               else (Inl (Exn ValueError (''Unknown tool: '' @ name)), sleep 1000 s1)) of
           (Inr result, s2) \<Rightarrow> (result, s2)
         | (Inl e, s2) \<Rightarrow>
             ([TextContent (''ERROR: Tool '' @ name @ '' failed: '' @ exn_str e)],
              sleep 1000 s2))"

section \<open>Auxiliary notions for the statements\<close>

text \<open>
  What the host alone makes of the store: \<open>replay ts f\<close> applies the host's writes and
  deletions of the turns \<open>ts\<close> to the store \<open>f\<close>, and \<open>consumed s s'\<close> are the turns used up
  between the state \<open>s\<close> and a later state \<open>s'\<close>. A run from \<open>s\<close> to \<open>s'\<close> has changed
  nothing by itself when the store of \<open>s'\<close> is \<open>replay (consumed s s') (files s)\<close>.
\<close>

fun replay :: "turn list \<Rightarrow> (string \<Rightarrow> string option) \<Rightarrow> (string \<Rightarrow> string option)" where
  "replay [] f = f"
| "replay (t # ts) f = replay ts (apply_puts (host_puts t) f)"

definition consumed :: "server \<Rightarrow> server \<Rightarrow> turn list" where
  "consumed s s' = take (length (script s) - length (script s')) (script s)"

text \<open>
  \<open>host_only s s'\<close>: the state \<open>s'\<close> comes from \<open>s\<close> by some turns of the script and nothing
  else (the clock apart).
\<close>

definition host_only :: "server \<Rightarrow> server \<Rightarrow> bool" where
  "host_only s s' =
     (\<exists>n\<le>length (script s). script s' = drop n (script s) \<and>
        files s' = replay (take n (script s)) (files s) \<and>
        last_attachments s' = last_attachments s \<and> whisper_model s' = whisper_model s)"

text \<open>
  \<open>store_all P ps s\<close>: every content that one of the files \<open>ps\<close> holds in \<open>s\<close>, or receives
  from the host in a turn still to come, satisfies \<open>P\<close>. With \<open>P\<close> false everywhere it says
  that none of the files exists now or is created later.
\<close>

definition put_ok :: "(string \<Rightarrow> bool) \<Rightarrow> string list \<Rightarrow> string \<times> string option \<Rightarrow> bool" where
  "put_ok P ps pv = (fst pv \<in> set ps \<longrightarrow> (case snd pv of None \<Rightarrow> True | Some raw \<Rightarrow> P raw))"

definition files_ok :: "(string \<Rightarrow> bool) \<Rightarrow> string list \<Rightarrow> (string \<Rightarrow> string option) \<Rightarrow> bool" where
  "files_ok P ps f = (\<forall>p\<in>set ps. case f p of None \<Rightarrow> True | Some raw \<Rightarrow> P raw)"

definition store_all :: "(string \<Rightarrow> bool) \<Rightarrow> string list \<Rightarrow> server \<Rightarrow> bool" where
  "store_all P ps s =
     (files_ok P ps (files s) \<and> (\<forall>t\<in>set (script s). \<forall>pv\<in>set (host_puts t). put_ok P ps pv))"

text \<open>
  \<open>kept p raw s\<close>: the file \<open>p\<close> holds \<open>raw\<close> in \<open>s\<close> and the host does not touch it in
  the turns to come.
\<close>

definition kept :: "string \<Rightarrow> string \<Rightarrow> server \<Rightarrow> bool" where
  "kept p raw s =
     (files s p = Some raw \<and> (\<forall>t\<in>set (script s). \<forall>pv\<in>set (host_puts t). fst pv \<noteq> p))"

text \<open>
  \<open>inert L T raw\<close>: a response file with content \<open>raw\<close> is neither accepted nor a reason
  to assign \<^verbatim>\<open>self._last_attachments\<close>.
\<close>

definition inert :: "pylib \<Rightarrow> string \<Rightarrow> string \<Rightarrow> bool" where
  "inert L T raw =
     (case parse_response L T (strip raw) of
        (Inr (Accepted u), a) \<Rightarrow> False
      | (r, a) \<Rightarrow> a = None)"

text \<open>
  \<open>sighting p s\<close>: what a waiter that looks at the file \<open>p\<close> in state \<open>s\<close> gets to read
  (existence test, then read), with the state after the read; \<open>None\<close> when the file is
  missing at either operation.
\<close>

definition sighting :: "string \<Rightarrow> server \<Rightarrow> (string \<times> server) option" where
  "sighting p s =
     (case path_exists p s of (ex, s1) \<Rightarrow>
        if ex then (case read_text p s1 of (Inr raw, s2) \<Rightarrow> Some (raw, s2) | (Inl e, s2) \<Rightarrow> None)
        else None)"

text \<open>
  The kinds of response documents the statements speak of. A document declares another trigger
  id when its stripped body is a JSON object whose \<^verbatim>\<open>trigger_id\<close> is truthy (for a string:
  non-empty) and differs from the awaited id; it is malformed when the stripped body starts
  with \<^verbatim>\<open>{\<close> and \<^verbatim>\<open>json.loads\<close> rejects it; it carries the attachments \<open>xs\<close> when it is a
  JSON object whose \<^verbatim>\<open>attachments\<close> is the array \<open>xs\<close>.
\<close>

definition declares_other_id :: "pylib \<Rightarrow> string \<Rightarrow> string \<Rightarrow> bool" where
  "declares_other_id L T raw =
     (startswith (strip raw) ''{'' \<and>
      (case loads L (strip raw) of
         Inr (JObj kvs) \<Rightarrow>
           (case map_of kvs ''trigger_id'' of
              Some rid \<Rightarrow> truthy rid \<and> rid \<noteq> JStr T
            | None \<Rightarrow> False)
       | _ \<Rightarrow> False))"

definition malformed_json :: "pylib \<Rightarrow> string \<Rightarrow> bool" where
  "malformed_json L raw = (startswith (strip raw) ''{'' \<and> isl (loads L (strip raw)))"





text \<open>
  The first operations of the emitter, named so that statements can speak of their
  outcomes: the write of the primary trigger file (after the initial delay), the existence
  test that follows it, and the size check after that.
\<close>

definition primary_write :: "pylib \<Rightarrow> json \<Rightarrow> server \<Rightarrow> (exn + unit) \<times> server" where
  "primary_write L data s =
     write_text (trigger_file L) (dumps L (trigger_document L data (clock (sleep 100 s))))
       (sleep 100 s)"

definition primary_exists :: "pylib \<Rightarrow> json \<Rightarrow> server \<Rightarrow> bool \<times> server" where
  "primary_exists L data s = path_exists (trigger_file L) (snd (primary_write L data s))"

definition primary_size :: "pylib \<Rightarrow> json \<Rightarrow> server \<Rightarrow> (exn + nat) \<times> server" where
  "primary_size L data s = stat_size (trigger_file L) (snd (primary_exists L data s))"

text \<open>
  \<open>speech_request td p tid\<close>: the trigger document \<open>td\<close> is an object whose \<^verbatim>\<open>data\<close> is an
  object with the non-empty string \<open>p\<close> as \<^verbatim>\<open>audio_file\<close> and the truthy value \<open>tid\<close> as
  \<^verbatim>\<open>trigger_id\<close>. \<open>next_fault s\<close> is the failure, if any, that the next operation meets if it
  writes. \<open>error_document L tid msg now\<close> is the text of the result document that reports
  the error \<open>msg\<close>.
\<close>

definition speech_request :: "json \<Rightarrow> string \<Rightarrow> json \<Rightarrow> bool" where
  "speech_request td p tid =
     (case td of
        JObj kvs \<Rightarrow>
          (case map_of kvs ''data'' of
             Some (JObj dkvs) \<Rightarrow>
               map_of dkvs ''audio_file'' = Some (JStr p) \<and> p \<noteq> [] \<and>
               map_of dkvs ''trigger_id'' = Some tid \<and> truthy tid
           | _ \<Rightarrow> False)
      | _ \<Rightarrow> False)"

definition next_fault :: "server \<Rightarrow> string option" where
  "next_fault s = (case script s of [] \<Rightarrow> None | t # ts \<Rightarrow> fault t)"

definition error_document :: "pylib \<Rightarrow> json \<Rightarrow> string \<Rightarrow> int \<Rightarrow> string" where
  "error_document L tid msg now = dumps L (speech_response_data L tid '''' (Some msg) now)"

subsection \<open>Example data\<close>

text \<open>
  Concrete documents, a library instance and servers for the closed examples. The example
  \<^verbatim>\<open>json.loads\<close> knows the documents listed in \<open>example_documents\<close> and rejects every other
  text.
\<close>

definition foreign_response :: string where
  \<open>foreign_response = ''{"user_input": "ok", "trigger_id": "review_2"}''\<close>

definition blank_response :: string where
  \<open>blank_response = ''{"user_input": "  "}''\<close>

definition legacy_response :: string where
  \<open>legacy_response = ''{"response": " yes ", "message": "later"}''\<close>

definition truncated_response :: string where
  \<open>truncated_response = ''{"user_input": "ok"''\<close>

definition pdf_response :: string where
  \<open>pdf_response =
     ''{"user_input": "", "attachments": ['' @
     ''{"mimeType": "application/pdf", "fileName": "a.pdf", "base64Data": "QQ=="}, '' @
     ''{"mimeType": "application/pdf", "fileName": "b.pdf", "base64Data": "Qg=="}, '' @
     ''{"mimeType": "application/pdf", "fileName": "c.pdf", "base64Data": "Qw=="}]}''\<close>

definition image_response :: string where
  \<open>image_response =
     ''{"user_input": "see", "attachments": ['' @
     ''{"mimeType": "image/png", "fileName": "a.png", "base64Data": "QQ=="}, '' @
     ''{"mimeType": "image/png", "fileName": "b.png", "base64Data": "Qg=="}, '' @
     ''{"mimeType": "image/png", "fileName": "c.png", "base64Data": "Qw=="}]}''\<close>

definition image_only_response :: string where
  \<open>image_only_response =
     ''{"user_input": "", "attachments": ['' @
     ''{"mimeType": "image/png", "fileName": "a.png", "base64Data": "QQ=="}]}''\<close>

definition example_attachment :: "string \<Rightarrow> string \<Rightarrow> string \<Rightarrow> json" where
  "example_attachment mime name data =
     JObj [(''mimeType'', JStr mime), (''fileName'', JStr name), (''base64Data'', JStr data)]"

definition pdf_attachments :: "json list" where
  "pdf_attachments =
     [example_attachment ''application/pdf'' ''a.pdf'' ''QQ=='',
      example_attachment ''application/pdf'' ''b.pdf'' ''Qg=='',
      example_attachment ''application/pdf'' ''c.pdf'' ''Qw=='']"

definition image_attachments :: "json list" where
  "image_attachments =
     [example_attachment ''image/png'' ''a.png'' ''QQ=='',
      example_attachment ''image/png'' ''b.png'' ''Qg=='',
      example_attachment ''image/png'' ''c.png'' ''Qw=='']"

definition example_documents :: "(string \<times> json) list" where
  \<open>example_documents =
     [(foreign_response, JObj [(''user_input'', JStr ''ok''), (''trigger_id'', JStr ''review_2'')]),
      (blank_response, JObj [(''user_input'', JStr ''  '')]),
      (legacy_response, JObj [(''response'', JStr '' yes ''), (''message'', JStr ''later'')]),
      (pdf_response, JObj [(''user_input'', JStr ''''), (''attachments'', JArr pdf_attachments)]),
      (image_response,
       JObj [(''user_input'', JStr ''see''), (''attachments'', JArr image_attachments)]),
      (image_only_response,
       JObj [(''user_input'', JStr ''''),
             (''attachments'', JArr [example_attachment ''image/png'' ''a.png'' ''QQ==''])]),
      (''{"acknowledged": true}'', JObj [(''acknowledged'', JBool True)]),
      (''{"acknowledged": false}'', JObj [(''acknowledged'', JBool False)])]\<close>

definition example_loads :: "string \<Rightarrow> string + json" where
  "example_loads s =
     (case map_of example_documents s of
        Some v \<Rightarrow> Inr v
      | None \<Rightarrow> Inl ''Expecting value: line 1 column 1 (char 0)'')"

text \<open>A compact rendering of a value, standing for \<^verbatim>\<open>json.dumps\<close> in the examples.\<close>

fun render :: "json \<Rightarrow> string" where
  "render JNull = ''null''"
| "render (JBool b) = (if b then ''true'' else ''false'')"
| "render (JNum n) = py_int_str n"
| "render (JStr s) = [CHR 0x22] @ s @ [CHR 0x22]"
| "render (JArr xs) = ''['' @ join '', '' (map render xs) @ '']''"
| "render (JObj kvs) =
     ''{'' @ join '', '' (map (\<lambda>(k, v). [CHR 0x22] @ k @ [CHR 0x22] @ '': '' @ render v) kvs) @
     ''}''"

definition example_lib :: pylib where
  "example_lib =
     \<lparr>loads = example_loads,
      dumps = render,
      repr = (\<lambda>v. ''[]''),
      temp_dir = ''/tmp'',
      isoformat = (\<lambda>t. ''2025-01-01T00:00:00''),
      pid = 1,
      exists_other = (\<lambda>v. Inl ''expected str, bytes or os.PathLike object'')\<rparr>"

definition example_server :: "(string \<Rightarrow> string option) \<Rightarrow> turn list \<Rightarrow> server" where
  "example_server f ts =
     \<lparr>files = f, clock = 0, script = ts, last_attachments = JArr [], whisper_model = None\<rparr>"

definition quiet :: turn where
  "quiet = \<lparr>host_puts = [], fault = None, lag = 0\<rparr>"

definition consumed_then_backup_fails :: "turn list" where
  "consumed_then_backup_fails =
     [quiet, quiet, quiet,
      \<lparr>host_puts = [(''/tmp/review_gate_trigger.json'', None)], fault = None, lag = 0\<rparr>,
      quiet,
      \<lparr>host_puts = [], fault = Some ''[Errno 28] No space left on device'', lag = 0\<rparr>]"

definition example_speech_trigger :: json where
  "example_speech_trigger =
     JObj [(''data'', JObj [(''tool'', JStr ''speech_to_text''),
                           (''audio_file'', JStr ''/tmp/a.wav''),
                           (''trigger_id'', JStr ''speech_1'')])]"

section \<open>Lemmas\<close>

lemma replay_append: "replay (xs @ ys) f = replay ys (replay xs f)"
  by (induction xs arbitrary: f) auto

lemma host_only_refl: "host_only s s"
  by (auto simp: host_only_def intro: exI [of _ 0])

lemma host_only_trans:
  assumes "host_only s s'" and "host_only s' s''"
  shows "host_only s s''"
proof -
  from assms(1) obtain n where n: "n \<le> length (script s)" "script s' = drop n (script s)"
    "files s' = replay (take n (script s)) (files s)"
    "last_attachments s' = last_attachments s" "whisper_model s' = whisper_model s"
    unfolding host_only_def by blast
  from assms(2) obtain m where m: "m \<le> length (script s')" "script s'' = drop m (script s')"
    "files s'' = replay (take m (script s')) (files s')"
    "last_attachments s'' = last_attachments s'" "whisper_model s'' = whisper_model s'"
    unfolding host_only_def by blast
  have a: "n + m \<le> length (script s)" using n(1,2) m(1) by simp
  have b: "script s'' = drop (n + m) (script s)"
    unfolding m(2) n(2) by (simp add: add.commute)
  have "files s'' = replay (take m (drop n (script s))) (replay (take n (script s)) (files s))"
    unfolding m(3) n(2) n(3) ..
  also have "\<dots> = replay (take n (script s) @ take m (drop n (script s))) (files s)"
    by (simp only: replay_append)
  also have "\<dots> = replay (take (n + m) (script s)) (files s)"
    by (simp only: take_add)
  finally have c: "files s'' = replay (take (n + m) (script s)) (files s)" .
  have d: "last_attachments s'' = last_attachments s" "whisper_model s'' = whisper_model s"
    using n(4,5) m(4,5) by simp_all
  show ?thesis
    unfolding host_only_def
    by (rule exI [of _ "n + m"]) (intro conjI a b c d)
qed

lemma host_only_advance: "host_only s (snd (advance s))"
proof (cases "script s")
  case Nil
  then show ?thesis by (simp add: advance_def host_only_refl)
next
  case (Cons t ts)
  then show ?thesis
    by (auto simp: advance_def host_only_def intro!: exI [of _ 1])
qed

lemma host_only_clock: "host_only s s' \<Longrightarrow> host_only s (s'\<lparr>clock := c\<rparr>)"
  by (simp add: host_only_def)

lemma host_only_path_exists: "host_only s (snd (path_exists p s))"
  using host_only_advance [of s] by (auto simp: path_exists_def split: prod.splits)

lemma host_only_read_text: "host_only s (snd (read_text p s))"
  using host_only_advance [of s] by (auto simp: read_text_def split: prod.splits option.splits)

lemma host_only_sleep: "host_only s (sleep d s)"
  using host_only_advance [of s] by (auto simp: sleep_def host_only_clock split: prod.splits)

lemma files_ok_upd:
  "files_ok P ps f \<Longrightarrow> put_ok P ps (p, v) \<Longrightarrow> files_ok P ps (f(p := v))"
  by (auto simp: files_ok_def put_ok_def split: option.splits)

lemma files_ok_apply_puts:
  "files_ok P ps f \<Longrightarrow> \<forall>pv\<in>set puts. put_ok P ps pv \<Longrightarrow> files_ok P ps (apply_puts puts f)"
proof (induction puts f rule: apply_puts.induct)
  case (1 f)
  then show ?case by simp
next
  case (2 p v ps' f)
  have a: "files_ok P ps (f(p := v))"
    using "2.prems" by (intro files_ok_upd) simp_all
  have b: "\<forall>pv\<in>set ps'. put_ok P ps pv" using "2.prems"(2) by simp
  show ?case using "2.IH" [OF a b] by (simp del: fun_upd_apply)
qed

lemma store_all_advance: "store_all P ps s \<Longrightarrow> store_all P ps (snd (advance s))"
  by (cases "script s") (auto simp: advance_def store_all_def files_ok_apply_puts)

lemma store_all_clock: "store_all P ps s \<Longrightarrow> store_all P ps (s\<lparr>clock := c\<rparr>)"
  by (simp add: store_all_def)

lemma store_all_path_exists: "store_all P ps s \<Longrightarrow> store_all P ps (snd (path_exists p s))"
  using store_all_advance [of P ps s] by (auto simp: path_exists_def split: prod.splits)

lemma store_all_read_text: "store_all P ps s \<Longrightarrow> store_all P ps (snd (read_text p s))"
  using store_all_advance [of P ps s] by (auto simp: read_text_def split: prod.splits option.splits)

lemma store_all_sleep: "store_all P ps s \<Longrightarrow> store_all P ps (sleep d s)"
  using store_all_advance [of P ps s] by (auto simp: sleep_def store_all_clock split: prod.splits)

lemma read_text_content:
  "read_text p s = (Inr raw, s') \<Longrightarrow> files s' p = Some raw"
  by (auto simp: read_text_def split: prod.splits option.splits)

lemma check_inert:
  assumes inv: "store_all P ps s" and p: "p \<in> set ps"
    and P: "\<And>raw. P raw \<Longrightarrow> inert L T raw"
  shows "fst (check_response_file L T p s) = Next \<and>
         host_only s (snd (check_response_file L T p s)) \<and>
         store_all P ps (snd (check_response_file L T p s))"
proof -
  obtain ex s1 where e: "path_exists p s = (ex, s1)" by (cases "path_exists p s")
  obtain r s2 where r: "read_text p s1 = (r, s2)" by (cases "read_text p s1")
  have h1: "host_only s s1" using host_only_path_exists [of s p] e by simp
  have h2: "host_only s s2"
    using host_only_trans [OF h1] host_only_read_text [of s1 p] r by simp
  have i1: "store_all P ps s1" using store_all_path_exists [OF inv, of p] e by simp
  have i2: "store_all P ps s2" using store_all_read_text [OF i1, of p] r by simp
  show ?thesis
  proof (cases ex)
    case False
    then show ?thesis using e h1 i1 by (simp add: check_response_file_def)
  next
    case True
    show ?thesis
    proof (cases r)
      case (Inl x)
      then show ?thesis using True e r h2 i2 by (simp add: check_response_file_def)
    next
      case (Inr raw)
      have "files s2 p = Some raw" using read_text_content r Inr by simp
      then have "P raw" using i2 p by (auto simp: store_all_def files_ok_def split: option.splits)
      then have "inert L T raw" by (rule P)
      then show ?thesis using True e r Inr h2 i2
        by (auto simp: check_response_file_def inert_def assign_attachments_def
            split: prod.splits sum.splits verdict.splits)
    qed
  qed
qed

lemma scan_inert:
  assumes P: "\<And>raw. P raw \<Longrightarrow> inert L T raw"
  shows "store_all P ps s \<Longrightarrow> set qs \<subseteq> set ps \<Longrightarrow>
         fst (scan_response_files L T qs s) = Next \<and>
         host_only s (snd (scan_response_files L T qs s)) \<and>
         store_all P ps (snd (scan_response_files L T qs s))"
proof (induction qs arbitrary: s)
  case Nil
  then show ?case by (simp add: host_only_refl)
next
  case (Cons q qs)
  obtain fl s' where c: "check_response_file L T q s = (fl, s')"
    by (cases "check_response_file L T q s")
  have q: "q \<in> set ps" using Cons.prems by simp
  have k: "fl = Next" "host_only s s'" "store_all P ps s'"
    using check_inert [OF Cons.prems(1) q P] c by simp_all
  have ih: "fst (scan_response_files L T qs s') = Next \<and>
         host_only s' (snd (scan_response_files L T qs s')) \<and>
         store_all P ps (snd (scan_response_files L T qs s'))"
    using Cons.IH [OF k(3)] Cons.prems(2) by simp
  have "host_only s (snd (scan_response_files L T qs s'))"
    using host_only_trans [OF k(2)] ih by blast
  then show ?case using c k(1) ih by simp
qed

lemma wait_loop_inert:
  "\<forall>raw. P raw \<longrightarrow> inert L T raw \<Longrightarrow> store_all P (response_patterns L T) s \<Longrightarrow>
         fst (wait_loop L T timeout start s) = None \<and>
         host_only s (snd (wait_loop L T timeout start s))"
proof (induction L T timeout start s rule: wait_loop.induct)
  case (1 L T timeout start s)
  have P: "\<And>raw. P raw \<Longrightarrow> inert L T raw" using "1.prems"(1) by blast
  show ?case
  proof (cases "clock s - start < timeout * 1000")
    case False
    then show ?thesis by (simp add: wait_loop.simps host_only_refl)
  next
    case True
    obtain fl s' where c: "scan_response_files L T (response_patterns L T) s = (fl, s')"
      by (cases "scan_response_files L T (response_patterns L T) s")
    have k: "fl = Next" "host_only s s'" "store_all P (response_patterns L T) s'"
      using scan_inert [OF P "1.prems"(2) subset_refl] c by simp_all
    have ih: "fst (wait_loop L T timeout start (sleep 100 s')) = None \<and>
         host_only (sleep 100 s') (snd (wait_loop L T timeout start (sleep 100 s')))"
      using "1.IH" [OF True c [symmetric] k(1) "1.prems"(1) store_all_sleep [OF k(3)]] .
    have "host_only s (sleep 100 s')" using host_only_trans [OF k(2) host_only_sleep] .
    then have "host_only s (snd (wait_loop L T timeout start (sleep 100 s')))"
      using ih host_only_trans by blast
    then show ?thesis
      using True c k(1) ih by (simp add: wait_loop.simps [of L T timeout start s])
  qed
qed

lemma wait_loop_elapsed:
  "fst (wait_loop L T timeout start s) = None \<Longrightarrow>
   timeout * 1000 \<le> clock (snd (wait_loop L T timeout start s)) - start"
proof (induction L T timeout start s rule: wait_loop.induct)
  case (1 L T timeout start s)
  show ?case
  proof (cases "clock s - start < timeout * 1000")
    case False
    then show ?thesis by (simp add: wait_loop.simps)
  next
    case True
    obtain fl s' where c: "scan_response_files L T (response_patterns L T) s = (fl, s')"
      by (cases "scan_response_files L T (response_patterns L T) s")
    show ?thesis
    proof (cases fl)
      case (Return u)
      then show ?thesis using "1.prems" True c by (simp add: wait_loop.simps [of L T timeout start s])
    next
      case Next
      then show ?thesis
        using "1.prems" True c "1.IH" [OF True c [symmetric]]
        by (simp add: wait_loop.simps [of L T timeout start s])
    qed
  qed
qed

lemma host_only_consumed:
  "host_only s s' \<Longrightarrow> files s' = replay (consumed s s') (files s)"
  by (auto simp: host_only_def consumed_def)

lemma check_sighting:
  "sighting p s = Some (raw, s2) \<Longrightarrow>
   check_response_file L T p s =
     (case parse_response L T (strip raw) of
        (Inl e, a) \<Rightarrow> (Next, assign_attachments a s2)
      | (Inr Mismatch, a) \<Rightarrow> (Next, assign_attachments a s2)
      | (Inr (Accepted u), a) \<Rightarrow>
          (case unlink p (assign_attachments a s2) of
             (r, s3) \<Rightarrow> if u \<noteq> [] then (Return u, s3) else (Next, s3)))"
  by (auto simp: sighting_def check_response_file_def split: prod.splits if_splits sum.splits)

lemma sighting_content: "sighting p s = Some (raw, s2) \<Longrightarrow> files s2 p = Some raw"
  by (auto simp: sighting_def read_text_content split: prod.splits if_splits sum.splits)


lemma parse_other_id:
  assumes "declares_other_id L T raw"
  shows "parse_response L T (strip raw) = (Inr Mismatch, None) \<or>
         (\<exists>e. parse_response L T (strip raw) = (Inl e, None))"
proof -
  from assms obtain kvs rid where k: "startswith (strip raw) ''{''"
    "loads L (strip raw) = Inr (JObj kvs)" "map_of kvs ''trigger_id'' = Some rid"
    "truthy rid" "rid \<noteq> JStr T"
    by (auto simp: declares_other_id_def split: sum.splits json.splits option.splits)
  have j: "json_loads L (strip raw) = Inr (JObj kvs)" by (simp add: json_loads_def k(2))
  have t: "dict_get (JObj kvs) ''trigger_id'' d = Inr rid" for d
    by (simp add: dict_get_def k(3))
  obtain v where a: "dict_get (JObj kvs) ''attachments'' (JArr []) = Inr v"
    by (cases "map_of kvs ''attachments''") (simp_all add: dict_get_def)
  show ?thesis
  proof (cases "extract_user_input (JObj kvs)")
    case (Inl e)
    then show ?thesis by (simp add: parse_response_def k(1) j)
  next
    case (Inr u)
    then show ?thesis by (simp add: parse_response_def k(1,4,5) j t a)
  qed
qed

lemma inert_other_id: "declares_other_id L T raw \<Longrightarrow> inert L T raw"
  using parse_other_id [of L T raw] by (auto simp: inert_def)

lemma inert_malformed: "malformed_json L raw \<Longrightarrow> inert L T raw"
proof -
  assume "malformed_json L raw"
  then obtain m where k: "startswith (strip raw) ''{''" "loads L (strip raw) = Inl m"
    by (auto simp: malformed_json_def isl_def)
  have "parse_response L T (strip raw) = (Inl (Exn JSONDecodeError m), None)"
    by (simp add: parse_response_def json_loads_def k)
  then show ?thesis by (simp add: inert_def)
qed

lemma inert_step:
  assumes "sighting p s = Some (raw, s2)" and "inert L T raw"
  shows "check_response_file L T p s = (Next, s2)"
proof -
  obtain r a where pr: "parse_response L T (strip raw) = (r, a)"
    by (cases "parse_response L T (strip raw)")
  have a: "a = None" and r: "\<forall>u. r \<noteq> Inr (Accepted u)"
    using assms(2) pr by (auto simp: inert_def split: sum.splits verdict.splits)
  show ?thesis
  proof (cases r)
    case (Inl e)
    then show ?thesis
      by (simp add: check_sighting [OF assms(1)] pr a assign_attachments_def)
  next
    case (Inr v)
    then have "v = Mismatch" using r by (cases v) auto
    then show ?thesis
      using Inr by (simp add: check_sighting [OF assms(1)] pr a assign_attachments_def)
  qed
qed

lemma wait_inert:
  assumes "\<forall>raw. P raw \<longrightarrow> inert L T raw" and "store_all P (response_patterns L T) s"
  shows "fst (wait_for_user_input L T timeout s) = None \<and>
         files (snd (wait_for_user_input L T timeout s)) =
           replay (consumed s (snd (wait_for_user_input L T timeout s))) (files s) \<and>
         last_attachments (snd (wait_for_user_input L T timeout s)) = last_attachments s"
proof -
  have a: "fst (wait_loop L T timeout (clock s) s) = None \<and>
         host_only s (snd (wait_loop L T timeout (clock s) s))"
    using wait_loop_inert [OF assms] .
  have w: "wait_for_user_input L T timeout s = wait_loop L T timeout (clock s) s"
    by (simp add: wait_for_user_input_def)
  have h: "host_only s (snd (wait_for_user_input L T timeout s))"
    unfolding w using a by blast
  have l: "last_attachments (snd (wait_for_user_input L T timeout s)) = last_attachments s"
    using h unfolding host_only_def by blast
  show ?thesis
    using a host_only_consumed [OF h] l unfolding w by blast
qed

lemma quiet_advance: "script s = [] \<Longrightarrow> advance s = (None, s)"
  by (simp add: advance_def)

lemma strip_foreign: "strip foreign_response = foreign_response"
  by (simp add: foreign_response_def strip_def is_space_def)

lemma example_patterns:
  "response_patterns example_lib ''review_1'' =
     [''/tmp/review_gate_response_review_1.json'', ''/tmp/review_gate_response.json'',
      ''/tmp/mcp_response_review_1.json'', ''/tmp/mcp_response.json'']"
  by (simp add: response_patterns_def path_join_def startswith_def endswith_def example_lib_def)





lemma wait_elapsed:
  "fst (wait_for_user_input L T timeout s) = None \<Longrightarrow>
   timeout * 1000 \<le> clock (snd (wait_for_user_input L T timeout s)) - clock s"
  using wait_loop_elapsed [of L T timeout "clock s" s] by (simp add: wait_for_user_input_def)




lemma quiet_sighting:
  "script s = [] \<Longrightarrow> files s p = Some raw \<Longrightarrow> sighting p s = Some (raw, s)"
  by (simp add: sighting_def path_exists_def read_text_def quiet_advance)

lemma quiet_store_all:
  "script s = [] \<Longrightarrow> store_all P ps s = files_ok P ps (files s)"
  by (simp add: store_all_def)

lemma example_server_simps:
  "script (example_server f ts) = ts" "files (example_server f ts) = f"
  "clock (example_server f ts) = 0" "last_attachments (example_server f ts) = JArr []"
  "whisper_model (example_server f ts) = None"
  by (simp_all add: example_server_def)

lemma example_lib_simps:
  "loads example_lib = example_loads" "temp_dir example_lib = ''/tmp''"
  "dumps example_lib = render"
  by (simp_all add: example_lib_def)

lemma strip_examples:
  "strip blank_response = blank_response" "strip legacy_response = legacy_response"
  "strip truncated_response = truncated_response" "strip pdf_response = pdf_response"
  "strip image_response = image_response"
  by (simp_all add: blank_response_def legacy_response_def truncated_response_def
      pdf_response_def image_response_def strip_def is_space_def)

lemma starts_examples:
  "startswith blank_response ''{''" "startswith legacy_response ''{''"
  "startswith truncated_response ''{''" "startswith pdf_response ''{''"
  "startswith image_response ''{''" "startswith foreign_response ''{''"
  by (simp_all add: blank_response_def legacy_response_def truncated_response_def
      pdf_response_def image_response_def foreign_response_def startswith_def)

lemma loads_examples:
  "example_loads blank_response = Inr (JObj [(''user_input'', JStr ''  '')])"
  "example_loads legacy_response =
     Inr (JObj [(''response'', JStr '' yes ''), (''message'', JStr ''later'')])"
  "example_loads pdf_response =
     Inr (JObj [(''user_input'', JStr ''''), (''attachments'', JArr pdf_attachments)])"
  "example_loads image_response =
     Inr (JObj [(''user_input'', JStr ''see''), (''attachments'', JArr image_attachments)])"
  "isl (example_loads truncated_response)"
  by (simp_all add: example_loads_def example_documents_def blank_response_def
      legacy_response_def truncated_response_def pdf_response_def image_response_def
      foreign_response_def image_only_response_def)














lemma quiet_check_absent:
  "script s = [] \<Longrightarrow> files s p = None \<Longrightarrow> check_response_file L T p s = (Next, s)"
  by (simp add: check_response_file_def path_exists_def quiet_advance)















lemma stat_size_error:
  "fst (stat_size p s) = Inl e \<Longrightarrow> e = file_not_found p"
  by (auto simp: stat_size_def split: prod.splits option.splits)

lemma emitter_cases:
  "trigger_cursor_popup_immediately L data s =
     (case fst (primary_write L data s) of
        Inl e \<Rightarrow> (False, sleep 1000 (snd (primary_write L data s)))
      | Inr u \<Rightarrow>
          if \<not> fst (primary_exists L data s) then (False, snd (primary_exists L data s))
          else (case fst (primary_size L data s) of
                  Inr n \<Rightarrow> if n = 0 then (False, snd (primary_size L data s))
                           else (True, finish_trigger L data (snd (primary_size L data s)))
                | Inl e \<Rightarrow> (True, finish_trigger L data (snd (primary_size L data s)))))"
proof -
  obtain w s2 where w: "primary_write L data s = (w, s2)" by (cases "primary_write L data s")
  obtain ex s3 where e: "path_exists (trigger_file L) s2 = (ex, s3)"
    by (cases "path_exists (trigger_file L) s2")
  obtain sz s4 where z: "stat_size (trigger_file L) s3 = (sz, s4)"
    by (cases "stat_size (trigger_file L) s3")
  have w': "write_text (trigger_file L) (dumps L (trigger_document L data (clock (sleep 100 s))))
       (sleep 100 s) = (w, s2)"
    using w by (simp add: primary_write_def)
  have pe: "primary_exists L data s = (ex, s3)" by (simp add: primary_exists_def w e)
  have ps: "primary_size L data s = (sz, s4)" by (simp add: primary_size_def pe z)
  show ?thesis
  proof (cases w)
    case (Inl x)
    then show ?thesis
      by (simp add: trigger_cursor_popup_immediately_def Let_def w' w)
  next
    case (Inr u)
    show ?thesis
    proof (cases sz)
      case (Inl x)
      then have "x = file_not_found (trigger_file L)"
        using stat_size_error [of "trigger_file L" s3 x] z by simp
      then show ?thesis
        using Inr Inl
        by (simp add: trigger_cursor_popup_immediately_def Let_def w' w e pe ps z
            file_not_found_def)
    next
      case (Inr n)
      then show ?thesis
        using \<open>w = Inr u\<close>
        by (simp add: trigger_cursor_popup_immediately_def Let_def w' w e pe ps z)
    qed
  qed
qed

lemma example_trigger_file: "trigger_file example_lib = ''/tmp/review_gate_trigger.json''"
  by (simp add: trigger_file_def path_join_def startswith_def endswith_def example_lib_simps)

lemma speech_request_gets:
  assumes "speech_request td p tid"
  shows "bind_exn (dict_get td ''data'' (JObj [])) (\<lambda>d. dict_get d ''audio_file'' JNull) =
           Inr (JStr p)"
    and "bind_exn (dict_get td ''data'' (JObj [])) (\<lambda>d. dict_get d ''trigger_id'' dflt) =
           Inr tid"
    and "p \<noteq> []" and "truthy tid"
proof -
  from assms obtain kvs where td: "td = JObj kvs"
    by (cases td) (simp_all add: speech_request_def)
  from assms td obtain d where d: "map_of kvs ''data'' = Some d"
    by (cases "map_of kvs ''data''") (simp_all add: speech_request_def)
  from assms td d obtain dkvs where dk: "d = JObj dkvs"
    by (cases d) (simp_all add: speech_request_def)
  have k: "map_of dkvs ''audio_file'' = Some (JStr p)" "p \<noteq> []"
    "map_of dkvs ''trigger_id'' = Some tid" "truthy tid"
    using assms by (simp_all add: speech_request_def td d dk)
  show "bind_exn (dict_get td ''data'' (JObj [])) (\<lambda>d. dict_get d ''audio_file'' JNull) =
           Inr (JStr p)"
    by (simp add: bind_exn_def dict_get_def td d dk k)
  show "bind_exn (dict_get td ''data'' (JObj [])) (\<lambda>d. dict_get d ''trigger_id'' dflt) =
           Inr tid"
    by (simp add: bind_exn_def dict_get_def td d dk k)
  show "p \<noteq> []" "truthy tid" using k by simp_all
qed

lemma write_speech_response_files:
  assumes "next_fault s = None"
  shows "files (write_speech_response L tid tr err s) (speech_response_file L tid) =
           Some (dumps L (speech_response_data L tid tr err (clock s)))"
  using assms
  by (auto simp: write_speech_response_def write_text_def advance_def next_fault_def
      split: list.splits)

lemma speech_body_unavailable:
  assumes "speech_request td p tid" and "whisper_model s = None"
  shows "speech_body L td s =
           (Inr (), write_speech_response L tid '''' (Some ''Whisper model not available'') s)"
  using speech_request_gets [OF assms(1)] assms(2)
  by (simp add: speech_body_def)

lemma speech_body_missing:
  assumes "speech_request td p tid" and "whisper_model s = Some model"
    and "\<not> fst (path_exists p s)"
  shows "speech_body L td s =
           (Inr (), write_speech_response L tid '''' (Some ''Audio file not found'')
                      (snd (path_exists p s)))"
proof -
  obtain ex s1 where e: "path_exists p s = (ex, s1)" by (cases "path_exists p s")
  have o: "os_path_exists L (JStr p) s = (Inr False, s1)"
    using assms(3) e by (simp add: os_path_exists_def)
  show ?thesis
    using speech_request_gets [OF assms(1)] assms(2)
    by (simp add: speech_body_def o e)
qed

lemma speech_body_raises:
  assumes "speech_request td p tid" and "whisper_model s = Some model"
    and "fst (path_exists p s)" and "model (JStr p) = Inl e"
  shows "speech_body L td s = (Inl e, snd (path_exists p s))"
proof -
  obtain ex s1 where e: "path_exists p s = (ex, s1)" by (cases "path_exists p s")
  have o: "os_path_exists L (JStr p) s = (Inr True, s1)"
    using assms(3) e by (simp add: os_path_exists_def)
  show ?thesis
    using speech_request_gets [OF assms(1)] assms(2,4)
    by (simp add: speech_body_def o e)
qed

lemma process_unavailable:
  assumes "speech_request td p tid" and "whisper_model s = None"
  shows "process_speech_request L td s =
      (Inr (), write_speech_response L tid '''' (Some ''Whisper model not available'') s)"
  using speech_body_unavailable [OF assms, of L] by (simp add: process_speech_request_def)

lemma process_missing:
  assumes "speech_request td p tid" and "whisper_model s = Some model"
    and "\<not> fst (path_exists p s)"
  shows "process_speech_request L td s =
      (Inr (), write_speech_response L tid '''' (Some ''Audio file not found'')
                 (snd (path_exists p s)))"
  using speech_body_missing [OF assms, of L] by (simp add: process_speech_request_def)

lemma process_raises:
  assumes "speech_request td p tid" and "whisper_model s = Some model"
    and "fst (path_exists p s)" and "model (JStr p) = Inl e"
  shows "process_speech_request L td s =
      (Inr (), write_speech_response L tid '''' (Some (exn_str e)) (snd (path_exists p s)))"
  using speech_body_raises [OF assms, of L]
    speech_request_gets(2) [OF assms(1), of "JStr ''unknown''"]
  by (simp add: process_speech_request_def)

lemma example_speech_request:
  "speech_request example_speech_trigger ''/tmp/a.wav'' (JStr ''speech_1'')"
  by (simp add: speech_request_def example_speech_trigger_def)

lemma example_speech_response_file:
  "speech_response_file example_lib (JStr ''speech_1'') =
     ''/tmp/review_gate_speech_response_speech_1.json''"
  by (simp add: speech_response_file_def path_join_def startswith_def endswith_def
      example_lib_simps)

lemma example_error_document:
  \<open>error_document example_lib (JStr ''speech_1'') msg now =
     ''{"timestamp": "2025-01-01T00:00:00", "trigger_id": "speech_1", '' @
     ''"transcription": "", "success": false, "error": "'' @ msg @
     ''", "source": "review_gate_whisper"}''\<close>
  by (simp add: error_document_def speech_response_data_def example_lib_def)

lemma apply_puts_other:
  "\<forall>pv\<in>set puts. fst pv \<noteq> p \<Longrightarrow> apply_puts puts f p = f p"
  by (induction puts f rule: apply_puts.induct) auto

lemma kept_advance: "kept p raw s \<Longrightarrow> kept p raw (snd (advance s))"
  by (cases "script s") (auto simp: advance_def kept_def apply_puts_other)

lemma kept_path_exists: "kept p raw s \<Longrightarrow> kept p raw (snd (path_exists q s))"
  using kept_advance [of p raw s] by (auto simp: path_exists_def split: prod.splits)

lemma kept_read_text: "kept p raw s \<Longrightarrow> kept p raw (snd (read_text q s))"
  using kept_advance [of p raw s] by (auto simp: read_text_def split: prod.splits option.splits)

lemma kept_sleep: "kept p raw s \<Longrightarrow> kept p raw (sleep d s)"
  using kept_advance [of p raw s] by (auto simp: sleep_def kept_def split: prod.splits)

lemma kept_assign: "kept p raw s \<Longrightarrow> kept p raw (assign_attachments a s)"
  by (auto simp: assign_attachments_def kept_def split: option.splits)

lemma kept_unlink: "kept p raw s \<Longrightarrow> q \<noteq> p \<Longrightarrow> kept p raw (snd (unlink q s))"
proof -
  assume a: "kept p raw s" and n: "q \<noteq> p"
  obtain f s1 where adv: "advance s = (f, s1)" by (cases "advance s")
  have i: "kept p raw s1" using kept_advance [OF a] adv by simp
  have "kept p raw (s1\<lparr>files := (files s1)(q := None)\<rparr>)"
    using i n by (auto simp: kept_def)
  then show ?thesis using i by (auto simp: unlink_def adv split: option.splits)
qed

lemma kept_sighting:
  assumes "kept p raw s"
  shows "\<exists>s2. sighting p s = Some (raw, s2) \<and> kept p raw s2"
proof -
  obtain ex s1 where e: "path_exists p s = (ex, s1)" by (cases "path_exists p s")
  obtain r s2 where r: "read_text p s1 = (r, s2)" by (cases "read_text p s1")
  have i1: "kept p raw s1" using kept_path_exists [OF assms, of p] e by simp
  have i2: "kept p raw s2" using kept_read_text [OF i1, of p] r by simp
  have x: "ex" using e i1 by (auto simp: path_exists_def kept_def split: prod.splits)
  have y: "r = Inr raw"
    using r i2 by (auto simp: read_text_def kept_def split: prod.splits option.splits)
  show ?thesis using x y e r i2 by (simp add: sighting_def)
qed

lemma kept_check:
  assumes "kept p raw s" and "inert L T raw"
  shows "kept p raw (snd (check_response_file L T q s))"
proof (cases "q = p")
  case True
  from kept_sighting [OF assms(1)] obtain s2 where
    sg: "sighting p s = Some (raw, s2)" and k: "kept p raw s2" by blast
  show ?thesis using inert_step [OF sg assms(2)] k True by simp
next
  case False
  obtain ex s1 where e: "path_exists q s = (ex, s1)" by (cases "path_exists q s")
  obtain r s2 where r: "read_text q s1 = (r, s2)" by (cases "read_text q s1")
  have i1: "kept p raw s1" using kept_path_exists [OF assms(1), of q] e by simp
  have i2: "kept p raw s2" using kept_read_text [OF i1, of q] r by simp
  have i3: "kept p raw (snd (unlink q (assign_attachments a s2)))" for a
    using kept_unlink [OF kept_assign [OF i2] False] .
  have i4: "kept p raw (assign_attachments a s2)" for a by (rule kept_assign [OF i2])
  show ?thesis
  proof (cases ex)
    case False
    then show ?thesis using e i1 by (simp add: check_response_file_def)
  next
    case True
    show ?thesis
    proof (cases r)
      case (Inl x)
      then show ?thesis using True e r i2 by (simp add: check_response_file_def)
    next
      case (Inr c)
      obtain v a where pr: "parse_response L T (strip c) = (v, a)"
        by (cases "parse_response L T (strip c)")
      obtain u s3 where u: "unlink q (assign_attachments a s2) = (u, s3)"
        by (cases "unlink q (assign_attachments a s2)")
      have k3: "kept p raw s3" using i3 [of a] u by simp
      show ?thesis
        using True e r Inr pr u k3 i4 [of a]
        by (auto simp: check_response_file_def split: sum.splits verdict.splits)
    qed
  qed
qed

lemma kept_scan:
  "kept p raw s \<Longrightarrow> inert L T raw \<Longrightarrow> kept p raw (snd (scan_response_files L T qs s))"
proof (induction qs arbitrary: s)
  case Nil
  then show ?case by simp
next
  case (Cons q qs)
  obtain fl s1 where c: "check_response_file L T q s = (fl, s1)"
    by (cases "check_response_file L T q s")
  have k: "kept p raw s1" using kept_check [OF Cons.prems, of q] c by simp
  show ?case
  proof (cases fl)
    case (Return u)
    then show ?thesis using c k by simp
  next
    case Next
    then show ?thesis using c Cons.IH [OF k Cons.prems(2)] by simp
  qed
qed

lemma kept_wait_loop:
  "kept p raw s \<Longrightarrow> inert L T raw \<Longrightarrow> kept p raw (snd (wait_loop L T timeout start s))"
proof (induction L T timeout start s rule: wait_loop.induct)
  case (1 L T timeout start s)
  show ?case
  proof (cases "clock s - start < timeout * 1000")
    case False
    then show ?thesis using "1.prems" by (simp add: wait_loop.simps)
  next
    case True
    obtain fl s1 where c: "scan_response_files L T (response_patterns L T) s = (fl, s1)"
      by (cases "scan_response_files L T (response_patterns L T) s")
    have k: "kept p raw s1" using kept_scan [OF "1.prems", of "response_patterns L T"] c by simp
    show ?thesis
    proof (cases fl)
      case (Return u)
      then show ?thesis using True c k by (simp add: wait_loop.simps [of L T timeout start s])
    next
      case Next
      have "kept p raw (snd (wait_loop L T timeout start (sleep 100 s1)))"
        using "1.IH" [OF True c [symmetric] Next kept_sleep [OF k] "1.prems"(2)] .
      then show ?thesis
        using True c Next by (simp add: wait_loop.simps [of L T timeout start s])
    qed
  qed
qed

lemma kept_wait:
  "kept p raw s \<Longrightarrow> inert L T raw \<Longrightarrow>
   files (snd (wait_for_user_input L T timeout s)) p = Some raw"
  using kept_wait_loop [of p raw s L T timeout "clock s"]
  by (simp add: wait_for_user_input_def kept_def)

lemma quiet_kept: "script s = [] \<Longrightarrow> kept p raw s = (files s p = Some raw)"
  by (simp add: kept_def)

section \<open>The properties\<close>

text \<open>
  C1. A response document that is valid JSON and declares a non-empty \<^verbatim>\<open>trigger_id\<close> other
  than the awaited one is skipped: the round that reads it goes on to the next file and
  leaves the state exactly as the read left it, the document still in place. If every
  candidate document of a call is of this kind, the call returns \<^verbatim>\<open>None\<close>, the store is
  what the host alone made of it, and the attachment slot is untouched. Whatever the other
  candidates hold and whatever the call returns, such a document that the host leaves alone
  is still in place, unchanged, when the call returns.
\<close>

theorem foreign_response_is_skipped:
  "(sighting p s = Some (raw, s2) \<and> declares_other_id L T raw \<longrightarrow>
      check_response_file L T p s = (Next, s2) \<and> files s2 p = Some raw) \<and>
   (store_all (declares_other_id L T) (response_patterns L T) s \<longrightarrow>
      fst (wait_for_user_input L T timeout s) = None \<and>
      files (snd (wait_for_user_input L T timeout s)) =
        replay (consumed s (snd (wait_for_user_input L T timeout s))) (files s) \<and>
      last_attachments (snd (wait_for_user_input L T timeout s)) = last_attachments s) \<and>
   (kept p raw s \<and> declares_other_id L T raw \<longrightarrow>
      files (snd (wait_for_user_input L T timeout s)) p = Some raw)"
proof (intro conjI impI)
  assume a: "sighting p s = Some (raw, s2) \<and> declares_other_id L T raw"
  then show "check_response_file L T p s = (Next, s2)"
    using inert_step inert_other_id by blast
  show "files s2 p = Some raw" using a sighting_content by blast
next
  assume "store_all (declares_other_id L T) (response_patterns L T) s"
  then have w: "fst (wait_for_user_input L T timeout s) = None \<and>
      files (snd (wait_for_user_input L T timeout s)) =
        replay (consumed s (snd (wait_for_user_input L T timeout s))) (files s) \<and>
      last_attachments (snd (wait_for_user_input L T timeout s)) = last_attachments s"
    using wait_inert [of "declares_other_id L T" L T s timeout] inert_other_id by blast
  show "fst (wait_for_user_input L T timeout s) = None" using w by blast
  show "files (snd (wait_for_user_input L T timeout s)) =
        replay (consumed s (snd (wait_for_user_input L T timeout s))) (files s)" using w by blast
  show "last_attachments (snd (wait_for_user_input L T timeout s)) = last_attachments s"
    using w by blast
next
  assume "kept p raw s \<and> declares_other_id L T raw"
  then show "files (snd (wait_for_user_input L T timeout s)) p = Some raw"
    using kept_wait inert_other_id by blast
qed

theorem foreign_response_is_skipped_witness:
  "(let p = ''/tmp/review_gate_response.json'';
        s = example_server [p \<mapsto> foreign_response] []
    in sighting p s = Some (foreign_response, s) \<and>
       declares_other_id example_lib ''review_1'' foreign_response \<and>
       check_response_file example_lib ''review_1'' p s = (Next, s) \<and>
       store_all (declares_other_id example_lib ''review_1'')
         (response_patterns example_lib ''review_1'') s \<and>
       kept p foreign_response s \<and>
       fst (wait_for_user_input example_lib ''review_1'' 2 s) = None \<and>
       files (snd (wait_for_user_input example_lib ''review_1'' 2 s)) p = Some foreign_response)"
proof -
  define p where "p = ''/tmp/review_gate_response.json''"
  define s where "s = example_server [p \<mapsto> foreign_response] []"
  have q: "script s = []" by (simp add: s_def example_server_def)
  have f: "files s p = Some foreign_response" by (simp add: s_def example_server_def)
  have h1: "sighting p s = Some (foreign_response, s)"
    by (simp add: sighting_def path_exists_def read_text_def quiet_advance [OF q] f)
  have h2: "declares_other_id example_lib ''review_1'' foreign_response"
    by (simp add: declares_other_id_def strip_foreign)
       (simp add: foreign_response_def startswith_def example_lib_def example_loads_def
          example_documents_def)
  have h3: "store_all (declares_other_id example_lib ''review_1'')
         (response_patterns example_lib ''review_1'') s"
    using h2 by (simp add: store_all_def files_ok_def example_patterns q)
      (simp add: s_def example_server_def p_def)
  have c: "consumed s s' = []" for s'
    by (simp add: consumed_def q)
  have h4: "kept p foreign_response s" by (simp add: quiet_kept [OF q] f)
  show ?thesis
    using foreign_response_is_skipped [of p s foreign_response s example_lib "''review_1''" 2]
      h1 h2 h3 h4 f
    unfolding Let_def p_def [symmetric] s_def [symmetric]
    by (simp add: c)
qed

text \<open>
  C2. The emitter returns \<^verbatim>\<open>False\<close> exactly when the write of the primary trigger file
  raised, or the file did not exist at the test right after the write, or its size was
  zero. A \<^verbatim>\<open>FileNotFoundError\<close> at the size check (the only error that check gives here)
  counts as success. On success the rest of the function, the backup copies included, runs
  inside its own handlers and the result stays \<^verbatim>\<open>True\<close>.
\<close>

theorem emitter_fails_only_when_unverified:
  "(\<not> fst (trigger_cursor_popup_immediately L data s) \<longleftrightarrow>
      isl (fst (primary_write L data s)) \<or> \<not> fst (primary_exists L data s) \<or>
      fst (primary_size L data s) = Inr 0) \<and>
   (\<not> isl (fst (primary_write L data s)) \<and> fst (primary_exists L data s) \<and>
    isl (fst (primary_size L data s)) \<longrightarrow>
      fst (primary_size L data s) = Inl (file_not_found (trigger_file L)) \<and>
      fst (trigger_cursor_popup_immediately L data s)) \<and>
   (fst (trigger_cursor_popup_immediately L data s) \<longrightarrow>
      snd (trigger_cursor_popup_immediately L data s) =
        finish_trigger L data (snd (primary_size L data s)))"
proof -
  have a: "\<not> fst (trigger_cursor_popup_immediately L data s) \<longleftrightarrow>
      isl (fst (primary_write L data s)) \<or> \<not> fst (primary_exists L data s) \<or>
      fst (primary_size L data s) = Inr 0"
    by (simp add: emitter_cases split: sum.splits)
  have b: "fst (primary_size L data s) = Inl (file_not_found (trigger_file L))"
    if "isl (fst (primary_size L data s))"
    using that stat_size_error [of "trigger_file L" "snd (primary_exists L data s)"]
    by (auto simp: primary_size_def isl_def)
  have c: "snd (trigger_cursor_popup_immediately L data s) =
        finish_trigger L data (snd (primary_size L data s))"
    if "fst (trigger_cursor_popup_immediately L data s)"
    using that by (simp add: emitter_cases split: sum.splits if_splits)
  show ?thesis using a b c by auto
qed


theorem emitter_fails_only_when_unverified_witness:
  "(let d = JObj [(''tool'', JStr ''review_gate_chat'')];
        s = example_server Map.empty consumed_then_backup_fails
    in \<not> isl (fst (primary_write example_lib d s)) \<and>
       fst (primary_exists example_lib d s) \<and>
       fst (primary_size example_lib d s) = Inl (file_not_found (trigger_file example_lib)) \<and>
       isl (fst (write_backups example_lib d [0, 1, 2]
                   (sync_with_retry 3 (snd (primary_size example_lib d s))))) \<and>
       fst (trigger_cursor_popup_immediately example_lib d s))"
proof -
  define d where "d = JObj [(''tool'', JStr ''review_gate_chat'')]"
  define s where "s = example_server Map.empty consumed_then_backup_fails"
  define c where "c = render (trigger_document example_lib d 100)"
  have w: "primary_write example_lib d s =
      (Inr (), s\<lparr>files := [''/tmp/review_gate_trigger.json'' \<mapsto> c], clock := 100,
                 script := drop 2 consumed_then_backup_fails\<rparr>)"
    by (simp add: primary_write_def write_text_def sleep_def advance_def s_def
        example_server_def consumed_then_backup_fails_def quiet_def example_trigger_file
        example_lib_simps c_def)
  have e: "primary_exists example_lib d s =
      (True, s\<lparr>files := [''/tmp/review_gate_trigger.json'' \<mapsto> c], clock := 100,
                 script := drop 3 consumed_then_backup_fails\<rparr>)"
    by (simp add: primary_exists_def w path_exists_def advance_def
        consumed_then_backup_fails_def quiet_def example_trigger_file)
  have z: "primary_size example_lib d s =
      (Inl (file_not_found ''/tmp/review_gate_trigger.json''),
       s\<lparr>files := [''/tmp/review_gate_trigger.json'' \<mapsto> c]
                       (''/tmp/review_gate_trigger.json'' := None), clock := 100,
                 script := drop 4 consumed_then_backup_fails\<rparr>)"
    by (simp add: primary_size_def e stat_size_def advance_def
        consumed_then_backup_fails_def quiet_def example_trigger_file)
  have b: "isl (fst (write_backups example_lib d [0, 1, 2]
                   (sync_with_retry 3 (snd (primary_size example_lib d s)))))"
    by (simp add: z numeral_3_eq_3 os_sync_def advance_def write_text_def
        consumed_then_backup_fails_def quiet_def)
  show ?thesis
    using emitter_fails_only_when_unverified [of example_lib d s] b
    unfolding Let_def d_def [symmetric] s_def [symmetric]
    by (simp add: w e z example_trigger_file)
qed








text \<open>
  C6. A response document whose stripped body starts with \<^verbatim>\<open>{\<close> and is not valid JSON
  raises nothing out of the round that reads it: the round goes on to the next file, the
  state is as the read left it and the document is still in place. If every candidate
  document of a call is of this kind, the call polls until the timeout, returns \<^verbatim>\<open>None\<close>
  and has deleted nothing. Whatever the other candidates hold, such a document that the
  host leaves alone is still in place when the call returns.
\<close>

theorem malformed_response_is_skipped:
  "(sighting p s = Some (raw, s2) \<and> malformed_json L raw \<longrightarrow>
      check_response_file L T p s = (Next, s2) \<and> files s2 p = Some raw) \<and>
   (store_all (malformed_json L) (response_patterns L T) s \<longrightarrow>
      fst (wait_for_user_input L T timeout s) = None \<and>
      timeout * 1000 \<le> clock (snd (wait_for_user_input L T timeout s)) - clock s \<and>
      files (snd (wait_for_user_input L T timeout s)) =
        replay (consumed s (snd (wait_for_user_input L T timeout s))) (files s)) \<and>
   (kept p raw s \<and> malformed_json L raw \<longrightarrow>
      files (snd (wait_for_user_input L T timeout s)) p = Some raw)"
proof (intro conjI impI)
  assume a: "sighting p s = Some (raw, s2) \<and> malformed_json L raw"
  then show "check_response_file L T p s = (Next, s2)"
    using inert_step inert_malformed by blast
  show "files s2 p = Some raw" using a sighting_content by blast
next
  assume "store_all (malformed_json L) (response_patterns L T) s"
  then have w: "fst (wait_for_user_input L T timeout s) = None \<and>
      files (snd (wait_for_user_input L T timeout s)) =
        replay (consumed s (snd (wait_for_user_input L T timeout s))) (files s) \<and>
      last_attachments (snd (wait_for_user_input L T timeout s)) = last_attachments s"
    using wait_inert [of "malformed_json L" L T s timeout] inert_malformed by blast
  show "fst (wait_for_user_input L T timeout s) = None" using w by blast
  then show "timeout * 1000 \<le> clock (snd (wait_for_user_input L T timeout s)) - clock s"
    by (rule wait_elapsed)
  show "files (snd (wait_for_user_input L T timeout s)) =
        replay (consumed s (snd (wait_for_user_input L T timeout s))) (files s)" using w by blast
next
  assume "kept p raw s \<and> malformed_json L raw"
  then show "files (snd (wait_for_user_input L T timeout s)) p = Some raw"
    using kept_wait inert_malformed by blast
qed

theorem malformed_response_is_skipped_witness:
  "(let p = ''/tmp/mcp_response.json'';
        s = example_server [p \<mapsto> truncated_response] []
    in sighting p s = Some (truncated_response, s) \<and>
       malformed_json example_lib truncated_response \<and>
       check_response_file example_lib ''review_1'' p s = (Next, s) \<and>
       store_all (malformed_json example_lib) (response_patterns example_lib ''review_1'') s \<and>
       kept p truncated_response s \<and>
       fst (wait_for_user_input example_lib ''review_1'' 2 s) = None \<and>
       files (snd (wait_for_user_input example_lib ''review_1'' 2 s)) p =
         Some truncated_response)"
proof -
  define p where "p = ''/tmp/mcp_response.json''"
  define s where "s = example_server [p \<mapsto> truncated_response] []"
  have q: "script s = []" by (simp add: s_def example_server_simps)
  have f: "files s p = Some truncated_response" by (simp add: s_def example_server_simps)
  have h1: "sighting p s = Some (truncated_response, s)" by (rule quiet_sighting [OF q f])
  have h2: "malformed_json example_lib truncated_response"
    by (simp add: malformed_json_def strip_examples starts_examples example_lib_simps
        loads_examples)
  have h3: "store_all (malformed_json example_lib) (response_patterns example_lib ''review_1'') s"
    using h2 by (simp add: quiet_store_all [OF q] files_ok_def example_patterns)
      (simp add: s_def example_server_simps p_def)
  have c: "consumed s s' = []" for s'
    by (simp add: consumed_def q)
  have h4: "kept p truncated_response s" by (simp add: quiet_kept [OF q] f)
  show ?thesis
    using malformed_response_is_skipped [of p s truncated_response s example_lib "''review_1''" 2]
      h1 h2 h3 h4 f
    unfolding Let_def p_def [symmetric] s_def [symmetric]
    by (simp add: c)
qed




text \<open>
  C8, as amended. For a speech request whose data holds a non-empty audio file path and a
  trigger id: when the model is not loaded, or the audio file does not exist, or the
  transcription raises, the handler returns normally and, unless the write of the result
  document itself fails, the file \<^verbatim>\<open>review_gate_speech_response_<trigger_id>.json\<close> holds
  the document whose \<^verbatim>\<open>success\<close> is false and whose \<^verbatim>\<open>error\<close> is the string
  \<^verbatim>\<open>Whisper model not available\<close>, \<^verbatim>\<open>Audio file not found\<close>, or \<^verbatim>\<open>str(e)\<close> of the exception.
\<close>

theorem speech_failure_writes_error_response:
  assumes "speech_request td p tid"
  shows "(whisper_model s = None \<and> next_fault s = None \<longrightarrow>
            fst (process_speech_request L td s) = Inr () \<and>
            files (snd (process_speech_request L td s)) (speech_response_file L tid) =
              Some (error_document L tid ''Whisper model not available'' (clock s))) \<and>
         (whisper_model s \<noteq> None \<and> \<not> fst (path_exists p s) \<and>
          next_fault (snd (path_exists p s)) = None \<longrightarrow>
            fst (process_speech_request L td s) = Inr () \<and>
            files (snd (process_speech_request L td s)) (speech_response_file L tid) =
              Some (error_document L tid ''Audio file not found''
                      (clock (snd (path_exists p s))))) \<and>
         (\<forall>model e. whisper_model s = Some model \<and> fst (path_exists p s) \<and>
            model (JStr p) = Inl e \<and> next_fault (snd (path_exists p s)) = None \<longrightarrow>
            fst (process_speech_request L td s) = Inr () \<and>
            files (snd (process_speech_request L td s)) (speech_response_file L tid) =
              Some (error_document L tid (exn_str e) (clock (snd (path_exists p s))))) \<and>
         (\<forall>msg now.
            dict_get (speech_response_data L tid '''' (Some msg) now) ''success'' JNull =
              Inr (JBool False) \<and>
            dict_get (speech_response_data L tid '''' (Some msg) now) ''error'' JNull =
              Inr (JStr msg))"
proof (intro conjI allI impI)
  assume a: "whisper_model s = None \<and> next_fault s = None"
  have b: "process_speech_request L td s =
      (Inr (), write_speech_response L tid '''' (Some ''Whisper model not available'') s)"
    using process_unavailable [OF assms, of s L] a by simp
  show "fst (process_speech_request L td s) = Inr ()" by (simp add: b)
  show "files (snd (process_speech_request L td s)) (speech_response_file L tid) =
              Some (error_document L tid ''Whisper model not available'' (clock s))"
    using a by (simp add: b write_speech_response_files error_document_def)
next
  assume a: "whisper_model s \<noteq> None \<and> \<not> fst (path_exists p s) \<and>
          next_fault (snd (path_exists p s)) = None"
  then obtain model where m: "whisper_model s = Some model" by auto
  have b: "process_speech_request L td s =
      (Inr (), write_speech_response L tid '''' (Some ''Audio file not found'')
                 (snd (path_exists p s)))"
    using process_missing [OF assms m, of L] a by simp
  show "fst (process_speech_request L td s) = Inr ()" by (simp add: b)
  show "files (snd (process_speech_request L td s)) (speech_response_file L tid) =
              Some (error_document L tid ''Audio file not found''
                      (clock (snd (path_exists p s))))"
    using a by (simp add: b write_speech_response_files error_document_def)
next
  fix model e
  assume a: "whisper_model s = Some model \<and> fst (path_exists p s) \<and>
            model (JStr p) = Inl e \<and> next_fault (snd (path_exists p s)) = None"
  have b: "process_speech_request L td s =
      (Inr (), write_speech_response L tid '''' (Some (exn_str e)) (snd (path_exists p s)))"
    using process_raises [OF assms, of s model e L] a by simp
  show "fst (process_speech_request L td s) = Inr ()" by (simp add: b)
  show "files (snd (process_speech_request L td s)) (speech_response_file L tid) =
              Some (error_document L tid (exn_str e) (clock (snd (path_exists p s))))"
    using a by (simp add: b write_speech_response_files error_document_def)
next
  fix msg now
  show "dict_get (speech_response_data L tid '''' (Some msg) now) ''success'' JNull =
              Inr (JBool False)"
    by (simp add: dict_get_def speech_response_data_def)
  show "dict_get (speech_response_data L tid '''' (Some msg) now) ''error'' JNull =
              Inr (JStr msg)"
    by (simp add: dict_get_def speech_response_data_def)
qed

theorem speech_failure_writes_error_response_witness:
  \<open>(let s = example_server Map.empty []
    in speech_request example_speech_trigger ''/tmp/a.wav'' (JStr ''speech_1'') \<and>
       whisper_model s = None \<and> next_fault s = None \<and>
       fst (process_speech_request example_lib example_speech_trigger s) = Inr () \<and>
       files (snd (process_speech_request example_lib example_speech_trigger s))
         ''/tmp/review_gate_speech_response_speech_1.json'' =
         Some (''{"timestamp": "2025-01-01T00:00:00", "trigger_id": "speech_1", '' @
               ''"transcription": "", "success": false, '' @
               ''"error": "Whisper model not available", "source": "review_gate_whisper"}''))\<close>
proof -
  define s where "s = example_server Map.empty []"
  have h: "whisper_model s = None" "next_fault s = None" "clock s = 0"
    by (simp_all add: s_def example_server_simps next_fault_def)
  show ?thesis
    using speech_failure_writes_error_response [OF example_speech_request, of s example_lib] h
    unfolding Let_def s_def [symmetric]
    by (simp add: example_speech_request example_speech_response_file example_error_document)
qed

text \<open>
  C8 as stated fails where it says that the error field is non-empty: an exception whose
  \<^verbatim>\<open>str(e)\<close> is empty gives the result document an empty error string.
\<close>

theorem speech_error_field_can_be_empty:
  \<open>(let s = (example_server [''/tmp/a.wav'' \<mapsto> ''RIFF''] [])
               \<lparr>whisper_model := Some (\<lambda>a. Inl (Exn RuntimeError ''''))\<rparr>
    in speech_request example_speech_trigger ''/tmp/a.wav'' (JStr ''speech_1'') \<and>
       fst (path_exists ''/tmp/a.wav'' s) \<and>
       fst (process_speech_request example_lib example_speech_trigger s) = Inr () \<and>
       files (snd (process_speech_request example_lib example_speech_trigger s))
         ''/tmp/review_gate_speech_response_speech_1.json'' =
         Some (''{"timestamp": "2025-01-01T00:00:00", "trigger_id": "speech_1", '' @
               ''"transcription": "", "success": false, '' @
               ''"error": "", "source": "review_gate_whisper"}''))\<close>
proof -
  define s where "s = (example_server [''/tmp/a.wav'' \<mapsto> ''RIFF''] [])
               \<lparr>whisper_model := Some (\<lambda>a. Inl (Exn RuntimeError ''''))\<rparr>"
  have q: "script s = []" by (simp add: s_def example_server_simps)
  have pe: "path_exists ''/tmp/a.wav'' s = (True, s)"
    by (simp add: path_exists_def quiet_advance [OF q]) (simp add: s_def example_server_simps)
  have h: "whisper_model s = Some (\<lambda>a. Inl (Exn RuntimeError ''''))" "next_fault s = None"
    "clock s = 0"
    by (simp_all add: s_def example_server_simps next_fault_def)
  have pr: "process_speech_request example_lib example_speech_trigger s =
      (Inr (), write_speech_response example_lib (JStr ''speech_1'') ''''
                 (Some (exn_str (Exn RuntimeError ''''))) s)"
    using process_raises [OF example_speech_request h(1), of "Exn RuntimeError ''''" example_lib]
    by (simp add: pe)
  have "fst (process_speech_request example_lib example_speech_trigger s) = Inr () \<and>
        files (snd (process_speech_request example_lib example_speech_trigger s))
          (speech_response_file example_lib (JStr ''speech_1'')) =
          Some (error_document example_lib (JStr ''speech_1'') (exn_str (Exn RuntimeError ''''))
                  (clock s))"
    by (simp add: pr write_speech_response_files [OF h(2)] error_document_def)
  then show ?thesis
    unfolding Let_def s_def [symmetric]
    by (simp add: example_speech_request example_speech_response_file example_error_document
        pe h)
qed

text \<open>
  C9. A call returns \<^verbatim>\<open>None\<close> only once the clock has advanced by at least the timeout
  since the call started; and when no candidate document exists at the start and the host
  creates none during the call, the call does return \<^verbatim>\<open>None\<close>.
\<close>

theorem no_response_times_out:
  "(fst (wait_for_user_input L T timeout s) = None \<longrightarrow>
      timeout * 1000 \<le> clock (snd (wait_for_user_input L T timeout s)) - clock s) \<and>
   (store_all (\<lambda>raw. False) (response_patterns L T) s \<longrightarrow>
      fst (wait_for_user_input L T timeout s) = None)"
proof (intro conjI impI)
  assume "fst (wait_for_user_input L T timeout s) = None"
  then show "timeout * 1000 \<le> clock (snd (wait_for_user_input L T timeout s)) - clock s"
    by (rule wait_elapsed)
next
  assume "store_all (\<lambda>raw. False) (response_patterns L T) s"
  then show "fst (wait_for_user_input L T timeout s) = None"
    using wait_inert [of "\<lambda>raw. False" L T s timeout] by simp
qed

theorem no_response_times_out_witness:
  "store_all (\<lambda>raw. False) (response_patterns example_lib ''review_1'')
     (example_server Map.empty []) \<and>
   fst (wait_for_user_input example_lib ''review_1'' 2 (example_server Map.empty [])) = None \<and>
   (2000::int) \<le> clock (snd (wait_for_user_input example_lib ''review_1'' 2
                          (example_server Map.empty [])))"
proof -
  have h: "store_all (\<lambda>raw. False) (response_patterns example_lib ''review_1'')
     (example_server Map.empty [])"
    by (simp add: quiet_store_all example_server_simps files_ok_def)
  show ?thesis
    using no_response_times_out [of example_lib "''review_1''" 2 "example_server Map.empty []"] h
    by (simp add: example_server_simps)
qed

text \<open>
  C10. For every tool name other than \<^verbatim>\<open>review_gate_chat\<close> the dispatcher returns, raising
  nothing, a single text item, whose text is \<^verbatim>\<open>ERROR: Tool <name> failed: Unknown tool: <name>\<close>
  and so starts with \<^verbatim>\<open>ERROR: Tool <name> failed:\<close>.
\<close>

theorem unknown_tool_is_reported:
  assumes "name \<noteq> ''review_gate_chat''"
  shows "fst (call_tool L name arguments s) =
           [TextContent (''ERROR: Tool '' @ name @ '' failed: Unknown tool: '' @ name)] \<and>
         startswith (''ERROR: Tool '' @ name @ '' failed: Unknown tool: '' @ name)
           (''ERROR: Tool '' @ name @ '' failed:'')"
  using assms by (simp add: call_tool_def Let_def startswith_def)

theorem unknown_tool_is_reported_witness:
  "fst (call_tool example_lib ''quick_review'' (JObj []) (example_server Map.empty [])) =
     [TextContent ''ERROR: Tool quick_review failed: Unknown tool: quick_review'']"
proof -
  have "''quick_review'' \<noteq> ''review_gate_chat''" by simp
  from unknown_tool_is_reported [OF this, of example_lib "JObj []" "example_server Map.empty []"]
  show ?thesis by simp
qed


end
